theory Spec2Isabelle
  imports Main
begin

section \<open>Strings as the source uses them\<close>

text \<open>
  A JavaScript string is modelled by its UTF-8 encoding, a list of bytes. An ASCII
  character is one byte and is never part of a longer sequence, so an ASCII keyword occurs
  in a string exactly when its bytes occur in the encoding.

  \<open>toLowerCase\<close> maps A to Z and the two characters outside ASCII whose lower case
  holds an ASCII letter: KELVIN SIGN U+212A (bytes E2 84 AA) becomes k, and LATIN CAPITAL
  LETTER I WITH DOT ABOVE U+0130 (bytes C4 B0) becomes i followed by U+0307 (bytes CC 87).
  JavaScript maps every other character outside ASCII to characters outside ASCII; its
  bytes are left as they are here, which changes no ASCII byte of the result.
\<close>

definition lower_char :: "char \<Rightarrow> char" where
  "lower_char c =
     (case map_of (zip ''ABCDEFGHIJKLMNOPQRSTUVWXYZ'' ''abcdefghijklmnopqrstuvwxyz'') c of
        None \<Rightarrow> c
      | Some l \<Rightarrow> l)"

fun toLowerCase :: "string \<Rightarrow> string" where
  "toLowerCase (a # b # c # cs) =
     (if a = CHR 0xE2 \<and> b = CHR 0x84 \<and> c = CHR 0xAA then CHR ''k'' # toLowerCase cs
      else if a = CHR 0xC4 \<and> b = CHR 0xB0
        then CHR ''i'' # CHR 0xCC # CHR 0x87 # toLowerCase (c # cs)
      else lower_char a # toLowerCase (b # c # cs))"
| "toLowerCase [a, b] =
     (if a = CHR 0xC4 \<and> b = CHR 0xB0 then [CHR ''i'', CHR 0xCC, CHR 0x87]
      else lower_char a # toLowerCase [b])"
| "toLowerCase [a] = [lower_char a]"
| "toLowerCase [] = []"

fun startsWith :: "string \<Rightarrow> string \<Rightarrow> bool" where
  "startsWith s [] = True"
| "startsWith [] (p # ps) = False"
| "startsWith (c # cs) (p # ps) = (c = p \<and> startsWith cs ps)"

text \<open>\<open>includes_str s p\<close> is \<open>s.includes(p)\<close>: \<open>p\<close> occurs in \<open>s\<close> as a contiguous run.\<close>

fun includes_str :: "string \<Rightarrow> string \<Rightarrow> bool" where
  "includes_str [] p = (p = [])"
| "includes_str (c # cs) p = (startsWith (c # cs) p \<or> includes_str cs p)"

definition endsWith :: "string \<Rightarrow> string \<Rightarrow> bool" where
  "endsWith s p = startsWith (rev s) (rev p)"

text \<open>
  The white space that \<open>trim\<close> strips, by the length of its encoding: U+0009 to U+000D
  and U+0020; U+00A0; and U+1680, U+2000 to U+200A, U+2028, U+2029, U+202F, U+205F,
  U+3000 and U+FEFF.
\<close>

definition space1 :: "char \<Rightarrow> bool" where
  "space1 a = (a \<in> set [CHR 0x09, CHR 0x0A, CHR 0x0B, CHR 0x0C, CHR 0x0D, CHR 0x20])"

definition space2 :: "char \<Rightarrow> char \<Rightarrow> bool" where
  "space2 a b = (a = CHR 0xC2 \<and> b = CHR 0xA0)"

definition space3 :: "char \<Rightarrow> char \<Rightarrow> char \<Rightarrow> bool" where
  "space3 a b c =
     ((a = CHR 0xE1 \<and> b = CHR 0x9A \<and> c = CHR 0x80) \<or>
      (a = CHR 0xE2 \<and> b = CHR 0x80 \<and>
         c \<in> set [CHR 0x80, CHR 0x81, CHR 0x82, CHR 0x83, CHR 0x84, CHR 0x85, CHR 0x86,
                  CHR 0x87, CHR 0x88, CHR 0x89, CHR 0x8A, CHR 0xA8, CHR 0xA9, CHR 0xAF]) \<or>
      (a = CHR 0xE2 \<and> b = CHR 0x81 \<and> c = CHR 0x9F) \<or>
      (a = CHR 0xE3 \<and> b = CHR 0x80 \<and> c = CHR 0x80) \<or>
      (a = CHR 0xEF \<and> b = CHR 0xBB \<and> c = CHR 0xBF))"

fun trimStart :: "string \<Rightarrow> string" where
  "trimStart (a # b # c # cs) =
     (if space1 a then trimStart (b # c # cs)
      else if space2 a b then trimStart (c # cs)
      else if space3 a b c then trimStart cs
      else a # b # c # cs)"
| "trimStart [a, b] =
     (if space1 a then trimStart [b] else if space2 a b then [] else [a, b])"
| "trimStart [a] = (if space1 a then [] else [a])"
| "trimStart [] = []"

text \<open>\<open>trimEnd\<close> on the reversed string: the last byte comes first.\<close>

fun trimEnd_rev :: "string \<Rightarrow> string" where
  "trimEnd_rev (c # b # a # cs) =
     (if space1 c then trimEnd_rev (b # a # cs)
      else if space2 b c then trimEnd_rev (a # cs)
      else if space3 a b c then trimEnd_rev cs
      else c # b # a # cs)"
| "trimEnd_rev [c, b] =
     (if space1 c then trimEnd_rev [b] else if space2 b c then [] else [c, b])"
| "trimEnd_rev [c] = (if space1 c then [] else [c])"
| "trimEnd_rev [] = []"

definition trim :: "string \<Rightarrow> string" where
  "trim s = rev (trimEnd_rev (rev (trimStart s)))"

text \<open>Truthiness of an optional string: \<open>undefined\<close>, \<open>null\<close> and \<open>''\<close> are falsy.\<close>

fun truthy :: "string option \<Rightarrow> bool" where
  "truthy None = False"
| "truthy (Some s) = (s \<noteq> [])"

text \<open>\<open>x || d\<close> on an optional string.\<close>

fun or_else :: "string option \<Rightarrow> string \<Rightarrow> string" where
  "or_else None d = d"
| "or_else (Some s) d = (if s = [] then d else s)"

section \<open>BarcodeService (services/barcodeService.ts)\<close>

record BarcodeService =
  cachedBarcode :: "string option"
  lastFetch :: int

text \<open>
  The outcome of \<open>axios.get(BARCODE_URL)\<close>: the request throws (network error,
  timeout, non-2xx status), or it returns a body whose \<open>barcode\<close> field may be
  missing.
\<close>

datatype fetch_outcome = FetchError | FetchData "string option"

definition cacheTimeout :: int where
  "cacheTimeout = 30000"

definition new_BarcodeService :: BarcodeService where
  "new_BarcodeService = \<lparr>cachedBarcode = None, lastFetch = 0\<rparr>"

text \<open>
  \<open>getCurrentBarcode\<close> at time \<open>now\<close> (milliseconds). The third component of the result
  says whether the request was issued; \<open>fetch\<close> is what the request gives when it is.
\<close>

definition getCurrentBarcode ::
  "BarcodeService \<Rightarrow> int \<Rightarrow> fetch_outcome \<Rightarrow> string option \<times> BarcodeService \<times> bool" where
  "getCurrentBarcode svc now fetch =
     (if truthy (cachedBarcode svc) \<and> now - lastFetch svc < cacheTimeout
      then (cachedBarcode svc, svc, False)
      else (case fetch of
              FetchData b \<Rightarrow>
                (if truthy b
                 then (b, svc\<lparr>cachedBarcode := b, lastFetch := now\<rparr>, True)
                 else (None, svc, True))
            | FetchError \<Rightarrow>
                (if truthy (cachedBarcode svc)
                 then (cachedBarcode svc, svc, True)
                 else (None, svc, True))))"

definition clearCache :: "BarcodeService \<Rightarrow> BarcodeService" where
  "clearCache svc = svc\<lparr>cachedBarcode := None, lastFetch := 0\<rparr>"

definition stale123 :: BarcodeService where
  "stale123 = \<lparr>cachedBarcode = Some ''123'', lastFetch = 1000\<rparr>"

section \<open>Types (types/index.ts)\<close>

text \<open>
  The fields \<open>id\<close> and \<open>title\<close> of a step are \<open>step_id\<close> and \<open>step_title\<close>
  here, the field \<open>id\<close> of a project is \<open>project_id\<close>, and the three sources are
  prefixed with \<open>src_\<close>: the plain names are taken in HOL or by other records.
\<close>

record InstructionStep =
  step_id :: int
  step_title :: string
  description :: string
  details :: "string list option"
  tips :: "string option"
  diagram :: "string list option"

datatype ProjectSource = src_hardcoded | src_barcode | src_s3

record Project =
  project_id :: string
  name :: string
  totalSteps :: int
  source :: ProjectSource
  steps :: "InstructionStep list"

text \<open>An object literal \<open>{id, title, description, details, tips}\<close> of the source.\<close>

definition step :: "int \<Rightarrow> string \<Rightarrow> string \<Rightarrow> string list \<Rightarrow> string option \<Rightarrow> InstructionStep" where
  "step i t d ds tp =
     \<lparr>step_id = i, step_title = t, description = d, details = Some ds, tips = tp,
      diagram = None\<rparr>"

section \<open>Search results and the external providers\<close>

text \<open>
  The title of a search result comes from the provider's JSON and is read without a check.
  It is falsy (undefined, null, false, 0), a string, or a truthy value that is not a string
  (a number, an object), kept with the text a template string prints for it.
\<close>

datatype js_value = Falsy | Str string | Truthy string

text \<open>\<open>item.title || ''\<close>: a string, or a truthy value that is not one.\<close>

datatype title_value = Text string | NotText string

fun or_blank :: "js_value \<Rightarrow> title_value" where
  "or_blank Falsy = Text []"
| "or_blank (Str s) = Text s"
| "or_blank (Truthy txt) = NotText txt"

text \<open>\<open>`${title}`\<close>\<close>

fun template_text :: "title_value \<Rightarrow> string" where
  "template_text (Text s) = s"
| "template_text (NotText txt) = txt"

text \<open>
  The exceptions that reach the outer catch of the pipeline: a method call on a value that
  lacks the method, and a failure thrown by the display call.
\<close>

datatype js_error = TypeError | DisplayThrew

text \<open>An entry of \<open>organic_results\<close> in a SerpAPI response.\<close>

record OrganicResult =
  or_title :: js_value
  or_link :: "string option"
  or_snippet :: "string option"
  displayed_link :: "string option"

text \<open>An entry of \<open>items\<close> as \<open>searchWithGoogle\<close> and \<open>searchGoogleForPDFs\<close> build it.\<close>

record SearchItem =
  item_title :: js_value
  link :: "string option"
  snippet :: "string option"
  displayLink :: "string option"
  fileFormat :: "string option"
  mime :: "string option"

record SearchResponse =
  totalResults :: int
  items :: "SearchItem list"

text \<open>What \<open>findFirstValidPDF\<close> returns for a match.\<close>

record ManualCandidate =
  cand_title :: title_value
  url :: string
  cand_snippet :: string
  cand_fileFormat :: string
  mimeType :: string

record ExaResult =
  exa_title :: "string option"
  exa_url :: "string option"
  highlights :: "string list option"

text \<open>
  The three Cerebras prompts are functions of the arguments kept here; a request is
  identified by them.
\<close>

datatype chat_request =
  IdentifyPrompt string
  | AnalyzePrompt string "SearchItem list"
  | InstructionPrompt string

text \<open>
  Outcomes of the outbound calls. The \<open>Error\<close> constructors stand for a thrown
  exception (network failure, non-2xx status, a response of the wrong shape), which
  each call site catches.
\<close>

datatype chat_outcome = ChatError | ChatContent "string option"

datatype serp_outcome = SerpError | SerpData "int option" "OrganicResult list option"

datatype exa_outcome = ExaError | ExaData "ExaResult list option"

datatype anthropic_outcome = AnthropicError | AnthropicText string

text \<open>
  The environment of one run: which API keys are configured and what each provider
  answers. Every provider takes the number of effects issued so far as its first
  argument, so its answers may change over time. \<open>JSON_parse\<close> is the library's
  \<open>JSON.parse\<close> read at the type \<open>InstructionStep[]\<close>; \<open>None\<close> stands for a
  thrown SyntaxError. \<open>showTextWall\<close> is \<open>session.layouts.showTextWall\<close> of the
  session passed to the pipeline, which may throw.
\<close>

datatype display_outcome = Displayed | DisplayError

record env =
  CEREBRAS_API_KEY :: bool
  SERPAPI_KEY :: bool
  EXA_API_KEY :: bool
  ANTHROPIC_API_KEY :: bool
  cerebras :: "nat \<Rightarrow> chat_request \<Rightarrow> chat_outcome"
  serpapi :: "nat \<Rightarrow> string \<Rightarrow> nat \<Rightarrow> serp_outcome"
  exa :: "nat \<Rightarrow> string \<Rightarrow> exa_outcome"
  anthropic :: "nat \<Rightarrow> string \<Rightarrow> string \<Rightarrow> anthropic_outcome"
  JSON_parse :: "string \<Rightarrow> InstructionStep list option"
  showTextWall :: "nat \<Rightarrow> string list \<Rightarrow> display_outcome"

text \<open>
  The effects of the pipeline, in the order it issues them; \<open>Caught\<close> is the
  \<open>console.error\<close> of the outer catch.
\<close>

datatype event =
  CerebrasRequest chat_request
  | SerpApiRequest string nat
  | ExaRequest string
  | AnthropicRequest string string
  | S3Put Project string "string option"
  | TryFallback string
  | Delay nat
  | ShowTextWall "string list"
  | Caught js_error

text \<open>The process-wide \<open>projectCache\<close> and the effects issued so far.\<close>

record pstate =
  projectCache :: "string \<rightharpoonup> Project"
  trace :: "event list"

definition tick :: "pstate \<Rightarrow> nat" where
  "tick st = length (trace st)"

definition emit :: "event \<Rightarrow> pstate \<Rightarrow> pstate" where
  "emit e st = st\<lparr>trace := trace st @ [e]\<rparr>"

section \<open>Step synthesis (generateFallbackInstructions, generateInstructionsFromPDF)\<close>

definition lego_steps :: "InstructionStep list" where
  "lego_steps =
    [step 1 ''Open & Sort'' ''Open package and organize pieces''
       [''Open all bags'', ''Sort by color/size'', ''Check piece count'']
       (Some ''Use small bowls to organize pieces''),
     step 2 ''Follow Instructions'' ''Start with step 1 of the manual''
       [''Locate first pieces'', ''Connect as shown'', ''Check orientation'']
       (Some ''Work on a flat surface''),
     step 3 ''Build Base'' ''Complete the foundation''
       [''Connect base pieces'', ''Ensure stability'', ''Check alignment'']
       (Some ''Press pieces firmly together''),
     step 4 ''Add Details'' ''Attach smaller components''
       [''Add decorative pieces'', ''Attach moving parts'', ''Check connections'']
       (Some ''Don't force pieces''),
     step 5 ''Final Assembly'' ''Complete the model''
       [''Add final pieces'', ''Check all connections'', ''Compare to image'']
       (Some ''Display proudly!'')]"

definition furniture_steps :: "InstructionStep list" where
  "furniture_steps =
    [step 1 ''Unpack All Parts'' ''Remove and organize components''
       [''Lay out all pieces'', ''Check parts list'', ''Organize hardware'']
       (Some ''Keep packaging until complete''),
     step 2 ''Prepare Tools'' ''Gather necessary tools''
       [''Check included tools'', ''Get screwdriver if needed'', ''Clear workspace'']
       (Some ''Read all instructions first''),
     step 3 ''Assemble Frame'' ''Build the main structure''
       [''Connect main panels'', ''Insert screws loosely'', ''Check alignment'']
       (Some ''Don't fully tighten until aligned''),
     step 4 ''Add Components'' ''Attach shelves or surfaces''
       [''Position components'', ''Secure with hardware'', ''Tighten all screws'']
       (Some ''Work systematically''),
     step 5 ''Final Steps'' ''Complete assembly''
       [''Add back panel if needed'', ''Attach anti-tip hardware'', ''Position in place'']
       (Some ''Secure to wall for safety'')]"

definition generic_steps :: "InstructionStep list" where
  "generic_steps =
    [step 1 ''Preparation'' ''Unpack and organize''
       [''Open packaging'', ''Check all parts'', ''Read instructions'']
       (Some ''Take your time''),
     step 2 ''Initial Assembly'' ''Start main assembly''
       [''Begin with base'', ''Follow diagram'', ''Connect main parts'']
       (Some ''Work on flat surface''),
     step 3 ''Continue Building'' ''Add components''
       [''Attach additional parts'', ''Check connections'', ''Follow sequence'']
       (Some ''Don't force connections''),
     step 4 ''Final Assembly'' ''Complete the build''
       [''Add final pieces'', ''Tighten all connections'', ''Check stability'']
       (Some ''Review all steps''),
     step 5 ''Completion'' ''Finish and test''
       [''Verify assembly'', ''Test functionality'', ''Clean up'']
       (Some ''Keep manual for reference'')]"

definition isLego :: "string \<Rightarrow> bool" where
  "isLego productTitle = includes_str (toLowerCase productTitle) ''lego''"

definition isFurniture :: "string \<Rightarrow> bool" where
  "isFurniture productTitle =
     (includes_str (toLowerCase productTitle) ''shelf'' \<or>
      includes_str (toLowerCase productTitle) ''table'' \<or>
      includes_str (toLowerCase productTitle) ''desk'' \<or>
      includes_str (toLowerCase productTitle) ''chair'')"

definition generateFallbackInstructions :: "string \<Rightarrow> InstructionStep list" where
  "generateFallbackInstructions productTitle =
     (if isLego productTitle then lego_steps
      else if isFurniture productTitle then furniture_steps
      else generic_steps)"

text \<open>
  \<open>content.match(/\[[\s\S]*\]/)\<close>: the text from the first opening bracket to the last
  closing bracket after it, if there is one.
\<close>

definition match_array :: "string \<Rightarrow> string option" where
  "match_array content =
     (case dropWhile (\<lambda>c. c \<noteq> CHR ''['') content of
        [] \<Rightarrow> None
      | b # rest \<Rightarrow>
          (case rev (dropWhile (\<lambda>c. c \<noteq> CHR '']'') (rev rest)) of
             [] \<Rightarrow> None
           | r # rs \<Rightarrow> Some (b # r # rs)))"

definition generateInstructionsFromPDF ::
  "env \<Rightarrow> pstate \<Rightarrow> string \<Rightarrow> string \<Rightarrow> InstructionStep list \<times> pstate" where
  "generateInstructionsFromPDF e st productTitle pdfUrl =
     (if \<not> ANTHROPIC_API_KEY e then (generateFallbackInstructions productTitle, st)
      else
        let st1 = emit (AnthropicRequest productTitle pdfUrl) st in
        (case anthropic e (tick st) productTitle pdfUrl of
           AnthropicError \<Rightarrow> (generateFallbackInstructions productTitle, st1)
         | AnthropicText content \<Rightarrow>
             (case match_array content of
                None \<Rightarrow> (generateFallbackInstructions productTitle, st1)
              | Some jsonMatch \<Rightarrow>
                  (case JSON_parse e jsonMatch of
                     None \<Rightarrow> (generateFallbackInstructions productTitle, st1)
                   | Some parsed \<Rightarrow> (parsed, st1)))))"

section \<open>Manual location (findFirstValidPDF)\<close>

text \<open>
  The test \<open>isPDF\<close> of the loop body, with the order in which \<open>||\<close> evaluates its
  operands. The link is a string or missing (a link of another kind makes the search
  function that built the item return null), and the format and MIME tags are written by
  \<open>searchGoogleForPDFs\<close> itself. The title is read as it came: when none of the tests
  before it holds, \<open>title.toLowerCase()\<close> throws on a title that is not a string.
\<close>

definition isPDF :: "SearchItem \<Rightarrow> js_error + bool" where
  "isPDF item =
     (let u = or_else (link item) [];
          ff = or_else (fileFormat item) [];
          mt = or_else (mime item) []
      in if endsWith (toLowerCase u) ''.pdf'' \<or>
            includes_str (toLowerCase u) ''.pdf'' \<or>
            includes_str (toLowerCase ff) ''pdf'' \<or>
            includes_str (toLowerCase mt) ''pdf''
         then Inr True
         else (case or_blank (item_title item) of
                 NotText txt \<Rightarrow> Inl TypeError
               | Text title \<Rightarrow>
                   Inr (includes_str (toLowerCase title) ''pdf'' \<or>
                        includes_str u ''rebrickable.com/instructions/'' \<or>
                        includes_str u ''lego.com/service/buildinginstructions/'' \<or>
                        (includes_str (toLowerCase title) ''instructions'' \<and>
                           (includes_str u ''rebrickable.com'' \<or>
                            includes_str u ''brickset.com'' \<or>
                            includes_str u ''bricklink.com'' \<or>
                            includes_str (toLowerCase title) ''lego'')))))"

definition candidate :: "SearchItem \<Rightarrow> ManualCandidate" where
  "candidate item =
     \<lparr>cand_title = or_blank (item_title item),
      url = or_else (link item) [],
      cand_snippet = or_else (snippet item) ''PDF instruction manual'',
      cand_fileFormat = or_else (fileFormat item) [],
      mimeType = or_else (mime item) []\<rparr>"

text \<open>The \<open>for (const item of searchResults.items)\<close> loop; it has no try/catch.\<close>

fun scan_items :: "SearchItem list \<Rightarrow> js_error + ManualCandidate option" where
  "scan_items [] = Inr None"
| "scan_items (item # rest) =
     (case isPDF item of
        Inl err \<Rightarrow> Inl err
      | Inr matches \<Rightarrow> (if matches then Inr (Some (candidate item)) else scan_items rest))"

definition findFirstValidPDF :: "SearchResponse option \<Rightarrow> js_error + ManualCandidate option" where
  "findFirstValidPDF searchResults =
     (case searchResults of
        None \<Rightarrow> Inr None
      | Some r \<Rightarrow> (if items r = [] then Inr None else scan_items (items r)))"

section \<open>Query composition and search (Cerebras, SerpAPI, Exa)\<close>

text \<open>\<open>response.data.choices[0]?.message?.content?.trim() || null\<close>, inside try/catch.\<close>

fun chat_result :: "chat_outcome \<Rightarrow> string option" where
  "chat_result ChatError = None"
| "chat_result (ChatContent None) = None"
| "chat_result (ChatContent (Some c)) = (if trim c = [] then None else Some (trim c))"

definition identifyProductFromBarcode ::
  "env \<Rightarrow> pstate \<Rightarrow> string \<Rightarrow> string option \<times> pstate" where
  "identifyProductFromBarcode e st barcode =
     (if \<not> CEREBRAS_API_KEY e then (None, st)
      else (chat_result (cerebras e (tick st) (IdentifyPrompt barcode)),
            emit (CerebrasRequest (IdentifyPrompt barcode)) st))"

definition has_items :: "SearchResponse option \<Rightarrow> bool" where
  "has_items r = (case r of None \<Rightarrow> False | Some x \<Rightarrow> items x \<noteq> [])"

definition analyzeProductFromGoogleResults ::
  "env \<Rightarrow> pstate \<Rightarrow> string \<Rightarrow> SearchResponse option \<Rightarrow> string option \<times> pstate" where
  "analyzeProductFromGoogleResults e st barcode googleResults =
     (if \<not> CEREBRAS_API_KEY e then (None, st)
      else (case googleResults of
              None \<Rightarrow> (None, st)
            | Some g \<Rightarrow>
                (if items g = [] then (None, st)
                 else (chat_result
                         (cerebras e (tick st) (AnalyzePrompt barcode (take 5 (items g)))),
                       emit (CerebrasRequest (AnalyzePrompt barcode (take 5 (items g)))) st))))"

definition generateInstructionQuery ::
  "env \<Rightarrow> pstate \<Rightarrow> string \<Rightarrow> string \<Rightarrow> string option \<times> pstate" where
  "generateInstructionQuery e st voiceCommand productTitle =
     (if \<not> CEREBRAS_API_KEY e then (None, st)
      else (chat_result (cerebras e (tick st) (InstructionPrompt productTitle)),
            emit (CerebrasRequest (InstructionPrompt productTitle)) st))"

text \<open>\<open>!result.link?.includes('https://images.thdstatic.com')\<close>\<close>

definition not_noise :: "OrganicResult \<Rightarrow> bool" where
  "not_noise r =
     (case or_link r of
        None \<Rightarrow> True
      | Some l \<Rightarrow> \<not> includes_str l ''https://images.thdstatic.com'')"

definition to_item :: "OrganicResult \<Rightarrow> SearchItem" where
  "to_item r =
     \<lparr>item_title = or_title r, link = or_link r, snippet = or_snippet r,
      displayLink = displayed_link r, fileFormat = None, mime = None\<rparr>"

definition link_is_pdf :: "OrganicResult \<Rightarrow> bool" where
  "link_is_pdf r =
     (case or_link r of None \<Rightarrow> False | Some l \<Rightarrow> includes_str (toLowerCase l) ''.pdf'')"

definition to_pdf_item :: "OrganicResult \<Rightarrow> SearchItem" where
  "to_pdf_item r =
     \<lparr>item_title = or_title r, link = or_link r, snippet = or_snippet r,
      displayLink = displayed_link r,
      fileFormat = (if link_is_pdf r then Some ''PDF'' else None),
      mime = (if link_is_pdf r then Some ''application/pdf'' else None)\<rparr>"

definition transformedResponse ::
  "(OrganicResult \<Rightarrow> SearchItem) \<Rightarrow> int option \<Rightarrow> OrganicResult list option \<Rightarrow> SearchResponse" where
  "transformedResponse f tot organic =
     \<lparr>totalResults = (case tot of None \<Rightarrow> 0 | Some n \<Rightarrow> n),
      items = (case organic of None \<Rightarrow> [] | Some rs \<Rightarrow> map f (filter not_noise rs))\<rparr>"

definition searchWithGoogle ::
  "env \<Rightarrow> pstate \<Rightarrow> string \<Rightarrow> SearchResponse option \<times> pstate" where
  "searchWithGoogle e st query =
     (if \<not> SERPAPI_KEY e then (None, st)
      else (case serpapi e (tick st) query 5 of
              SerpError \<Rightarrow> (None, emit (SerpApiRequest query 5) st)
            | SerpData tot organic \<Rightarrow>
                (Some (transformedResponse to_item tot organic),
                 emit (SerpApiRequest query 5) st)))"

text \<open>\<open>query.replace(/['"]/g, '').trim()\<close> followed by \<open>filetype:pdf\<close>.\<close>

definition pdfQuery :: "string \<Rightarrow> string" where
  "pdfQuery query =
     trim (filter (\<lambda>c. c \<noteq> CHR 0x27 \<and> c \<noteq> CHR 0x22) query) @ '' filetype:pdf''"

definition searchGoogleForPDFs ::
  "env \<Rightarrow> pstate \<Rightarrow> string \<Rightarrow> SearchResponse option \<times> pstate" where
  "searchGoogleForPDFs e st query =
     (if \<not> SERPAPI_KEY e then (None, st)
      else (case serpapi e (tick st) (pdfQuery query) 10 of
              SerpError \<Rightarrow> (None, emit (SerpApiRequest (pdfQuery query) 10) st)
            | SerpData tot organic \<Rightarrow>
                (Some (transformedResponse to_pdf_item tot organic),
                 emit (SerpApiRequest (pdfQuery query) 10) st)))"

text \<open>\<open>searchWithExa\<close> returns \<open>response.data\<close>; only its \<open>results\<close> field is read.\<close>

definition searchWithExa ::
  "env \<Rightarrow> pstate \<Rightarrow> string \<Rightarrow> ExaResult list option \<times> pstate" where
  "searchWithExa e st query =
     (if \<not> EXA_API_KEY e then (None, st)
      else (case exa e (tick st) query of
              ExaError \<Rightarrow> (None, emit (ExaRequest query) st)
            | ExaData results \<Rightarrow> (results, emit (ExaRequest query) st)))"

text \<open>\<open>uploadProjectToS3\<close> catches every failure of the request and returns nothing.\<close>

definition uploadProjectToS3 :: "pstate \<Rightarrow> Project \<Rightarrow> string \<Rightarrow> string option \<Rightarrow> pstate" where
  "uploadProjectToS3 st project barcode pdfUrl = emit (S3Put project barcode pdfUrl) st"

section \<open>The resolution pipeline (processVoiceCommandWithAI)\<close>

definition fallbackQueries :: "string \<Rightarrow> string list" where
  "fallbackQueries barcode =
     [barcode @ '' product'', ''UPC '' @ barcode, ''barcode '' @ barcode, barcode]"

text \<open>
  The \<open>for (const fallbackQuery of fallbackQueries)\<close> loop; \<open>cur\<close> is the value of
  \<open>productSearchResults\<close>, overwritten by every attempt.
\<close>

fun try_fallbacks ::
  "env \<Rightarrow> pstate \<Rightarrow> string list \<Rightarrow> SearchResponse option \<Rightarrow> SearchResponse option \<times> pstate" where
  "try_fallbacks e st [] cur = (cur, st)"
| "try_fallbacks e st (q # qs) cur =
     (case searchWithGoogle e (emit (TryFallback q) st) q of
        (r, st1) \<Rightarrow>
          (if has_items r then (r, st1)
           else try_fallbacks e (emit (Delay 500) st1) qs r))"

text \<open>The project built from the first Exa result.\<close>

definition exa_project :: "string \<Rightarrow> string \<Rightarrow> ExaResult \<Rightarrow> Project" where
  "exa_project barcode productIdQuery firstResult =
     \<lparr>project_id = ''barcode_'' @ barcode,
      name = or_else (exa_title firstResult) productIdQuery,
      totalSteps = 3,
      source = src_barcode,
      steps =
        [step 1 ''Preparation'' ''Gather tools and check components''
           [''Check all parts are present'', ''Gather required tools'']
           (case highlights firstResult of
              None \<Rightarrow> Some ''Follow manufacturer guidelines''
            | Some [] \<Rightarrow> None
            | Some (h # hs) \<Rightarrow> Some h),
         step 2 ''Assembly'' ''Follow the main assembly steps''
           [''Follow instructions carefully'', ''Take your time'']
           (Some (''Reference: '' @
              (case exa_url firstResult of None \<Rightarrow> ''undefined'' | Some u \<Rightarrow> u))),
         step 3 ''Completion'' ''Final checks and cleanup''
           [''Verify all connections'', ''Clean up workspace'']
           (Some ''Product identified via barcode scan'')]\<rparr>"

text \<open>Lines 716 to 755: the primary provider gave nothing, Exa is asked.\<close>

definition resolve_with_exa ::
  "env \<Rightarrow> pstate \<Rightarrow> string \<Rightarrow> string \<Rightarrow> Project option \<times> pstate" where
  "resolve_with_exa e st barcode productIdQuery =
     (case searchWithExa e st productIdQuery of
        (None, st1) \<Rightarrow> (None, st1)
      | (Some [], st1) \<Rightarrow> (None, st1)
      | (Some (firstResult # others), st1) \<Rightarrow>
          (Some (exa_project barcode productIdQuery firstResult), st1))"

definition barcode_project :: "string \<Rightarrow> string \<Rightarrow> InstructionStep list \<Rightarrow> Project" where
  "barcode_project barcode productTitle generated =
     \<lparr>project_id = ''barcode_'' @ barcode,
      name = productTitle,
      totalSteps = int (length generated),
      source = src_barcode,
      steps = generated\<rparr>"

definition cache_set :: "string \<Rightarrow> Project \<Rightarrow> pstate \<Rightarrow> pstate" where
  "cache_set key project st = st\<lparr>projectCache := (projectCache st)(key \<mapsto> project)\<rparr>"

text \<open>The two texts shown on the glasses when a session was passed.\<close>

definition identificationText :: "string \<Rightarrow> string \<Rightarrow> string list" where
  "identificationText productTitle barcode =
     [''PRODUCT IDENTIFIED'', [], productTitle, [], ''Barcode: '' @ barcode, [],
      ''Processing instructions...'']"

definition finalText :: "string \<Rightarrow> string \<Rightarrow> string list" where
  "finalText productTitle pdfTitle =
     [''INSTRUCTIONS FOUND'', [], productTitle, [], pdfTitle, [], ''Ready to guide you!'']"

text \<open>
  A call of \<open>session.layouts.showTextWall\<close> inside the try block: the text is handed over,
  and the call returns or throws.
\<close>

definition show_text :: "env \<Rightarrow> pstate \<Rightarrow> string list \<Rightarrow> (js_error + unit) \<times> pstate" where
  "show_text e st lines =
     (case showTextWall e (tick st) lines of
        Displayed \<Rightarrow> (Inr (), emit (ShowTextWall lines) st)
      | DisplayError \<Rightarrow> (Inl DisplayThrew, emit (ShowTextWall lines) st))"

text \<open>
  Lines 792 to 857, as they run inside the try block: from the instruction query to the
  cached and uploaded project. \<open>Inl\<close> is an exception on its way to the outer catch:
  \<open>findFirstValidPDF\<close> has no try/catch of its own, and the last display call comes
  after the project is cached and uploaded.
\<close>

definition resolve_instructions ::
  "env \<Rightarrow> pstate \<Rightarrow> string \<Rightarrow> string \<Rightarrow> string \<Rightarrow> bool
     \<Rightarrow> (js_error + Project) \<times> pstate" where
  "resolve_instructions e st barcode productTitle instructionQuery session =
     (case searchGoogleForPDFs e st instructionQuery of
        (r1, st1) \<Rightarrow>
          (case (if \<not> has_items r1 then searchWithGoogle e st1 instructionQuery
                 else (r1, st1)) of
             (instructionResults, st2) \<Rightarrow>
               (case (if has_items instructionResults
                      then findFirstValidPDF instructionResults else Inr None) of
                  Inl err \<Rightarrow> (Inl err, st2)
                | Inr (Some firstPDF) \<Rightarrow>
                    (case generateInstructionsFromPDF e st2 productTitle (url firstPDF) of
                       (generated, st3) \<Rightarrow>
                         (let project = barcode_project barcode productTitle generated;
                              st4 = cache_set (''barcode_'' @ barcode) project st3;
                              st5 = uploadProjectToS3 st4 project barcode (Some (url firstPDF))
                          in if session
                             then (case show_text e st5
                                          (finalText productTitle
                                             (template_text (cand_title firstPDF))) of
                                     (Inl err, st6) \<Rightarrow> (Inl err, st6)
                                   | (Inr u, st6) \<Rightarrow> (Inr project, st6))
                             else (Inr project, st5)))
                | Inr None \<Rightarrow>
                    (case generateInstructionsFromPDF e st2 productTitle [] of
                       (generated, st3) \<Rightarrow>
                         (let project = barcode_project barcode productTitle generated;
                              st4 = cache_set (''barcode_'' @ barcode) project st3;
                              st5 = uploadProjectToS3 st4 project barcode None
                          in (Inr project, st5))))))"

text \<open>
  Lines 757 to 857 inside the try block: title identification, the instruction query and
  the stage above.
\<close>

definition identified_body ::
  "env \<Rightarrow> pstate \<Rightarrow> string \<Rightarrow> string \<Rightarrow> SearchResponse option \<Rightarrow> bool
     \<Rightarrow> (js_error + Project option) \<times> pstate" where
  "identified_body e st voiceCommand barcode productSearchResults session =
     (case analyzeProductFromGoogleResults e st barcode productSearchResults of
        (None, st1) \<Rightarrow> (Inr None, st1)
      | (Some productTitle, st1) \<Rightarrow>
          (case (if session then show_text e st1 (identificationText productTitle barcode)
                 else (Inr (), st1)) of
             (Inl err, st2) \<Rightarrow> (Inl err, st2)
           | (Inr u, st2) \<Rightarrow>
               (case generateInstructionQuery e st2 voiceCommand productTitle of
                  (None, st3) \<Rightarrow> (Inr None, st3)
                | (Some instructionQuery, st3) \<Rightarrow>
                    (case resolve_instructions e st3 barcode productTitle instructionQuery
                            session of
                       (Inl err, st4) \<Rightarrow> (Inl err, st4)
                     | (Inr project, st4) \<Rightarrow> (Inr (Some project), st4)))))"

text \<open>The outer catch, lines 858 to 861: log the error and return null.\<close>

definition catch_null :: "(js_error + Project option) \<times> pstate \<Rightarrow> Project option \<times> pstate" where
  "catch_null r =
     (case r of
        (Inl err, st) \<Rightarrow> (None, emit (Caught err) st)
      | (Inr res, st) \<Rightarrow> (res, st))"

definition resolve_identified ::
  "env \<Rightarrow> pstate \<Rightarrow> string \<Rightarrow> string \<Rightarrow> SearchResponse option \<Rightarrow> bool
     \<Rightarrow> Project option \<times> pstate" where
  "resolve_identified e st voiceCommand barcode productSearchResults session =
     catch_null (identified_body e st voiceCommand barcode productSearchResults session)"

text \<open>
  The whole function; \<open>session\<close> says whether the optional session argument was passed.
  The body of the try block throws only in its last part, \<open>identified_body\<close>: every
  provider call before it catches its own failures, and the values read from the Exa
  answer are taken at the types of \<open>ExaResult\<close>. That part is in tail position, so the
  outer catch is applied to it, in \<open>resolve_identified\<close>.
\<close>

definition processVoiceCommandWithAI ::
  "env \<Rightarrow> pstate \<Rightarrow> string \<Rightarrow> string \<Rightarrow> bool \<Rightarrow> Project option \<times> pstate" where
  "processVoiceCommandWithAI e st voiceCommand barcode session =
     (case projectCache st (''barcode_'' @ barcode) of
        Some cachedProject \<Rightarrow> (Some cachedProject, st)
      | None \<Rightarrow>
          (case identifyProductFromBarcode e st barcode of
             (None, st1) \<Rightarrow> (None, st1)
           | (Some productIdQuery, st1) \<Rightarrow>
               (case searchWithGoogle e st1 productIdQuery of
                  (r0, st2) \<Rightarrow>
                    (case (if \<not> has_items r0
                           then try_fallbacks e st2 (fallbackQueries barcode) r0
                           else (r0, st2)) of
                       (productSearchResults, st3) \<Rightarrow>
                         (if \<not> has_items productSearchResults
                          then resolve_with_exa e st3 barcode productIdQuery
                          else resolve_identified e st3 voiceCommand barcode
                                 productSearchResults session)))))"

section \<open>The hosted-dataset project (loadS3Data)\<close>

record S3Step =
  step_number :: int
  s3_description :: string
  parts_used :: "string list"

record S3ProductData =
  product_name :: string
  product_brand :: string
  safety_warnings :: "string list"
  manual_steps :: "S3Step list"

text \<open>
  The decimal digits a template string prints for an integer of magnitude below
  \<open>10^21\<close>, the range of step numbers and step indices.
\<close>

fun show_nat :: "nat \<Rightarrow> string" where
  "show_nat n =
     (if n < 10 then [''0123456789'' ! n]
      else show_nat (n div 10) @ [''0123456789'' ! (n mod 10)])"

definition show_int :: "int \<Rightarrow> string" where
  "show_int i = (if i < 0 then CHR ''-'' # show_nat (nat (- i)) else show_nat (nat i))"

text \<open>The callback of \<open>steps.map((step, index) => ...)\<close>.\<close>

definition s3_step :: "string list \<Rightarrow> nat \<times> S3Step \<Rightarrow> InstructionStep" where
  "s3_step warnings p =
     (case p of (index, st) \<Rightarrow>
        \<lparr>step_id = int index + 1,
         step_title = ''Step '' @ show_int (step_number st),
         description = s3_description st,
         details = Some (parts_used st),
         tips = Some (or_else (case warnings of [] \<Rightarrow> None | w # ws \<Rightarrow> Some w)
                        ''Follow safety guidelines''),
         diagram = None\<rparr>)"

definition s3Project :: "S3ProductData \<Rightarrow> Project" where
  "s3Project s3Data =
     \<lparr>project_id = ''s3_product'',
      name = product_name s3Data @ '' ('' @ product_brand s3Data @ '')'',
      totalSteps = int (length (manual_steps s3Data)),
      source = src_s3,
      steps = map (s3_step (safety_warnings s3Data)) (enumerate 0 (manual_steps s3Data))\<rparr>"

section \<open>The session state machine (EnhancedHandymanAssistant)\<close>

text \<open>
  The four values of \<open>AppState\<close> are capitalised (\<open>welcome\<close> is a reserved word).
  The model follows one session from \<open>onSession\<close> until \<open>onStop\<close>.
\<close>

datatype AppState = Welcome | Selecting | Building | Completed

record session_state =
  state :: AppState
  currentProject :: "Project option"
  currentStep :: int
  startTime :: int
  availableProjects :: "string \<rightharpoonup> Project"
  stepsGenerated :: bool

text \<open>
  What the session puts on the display or answers to a tool call. \<open>showInstructionStep\<close>
  reads \<open>project.steps[stepIndex]\<close> and throws a TypeError when that is undefined;
  every caller has written the session state before the call and does nothing of
  consequence after it, so the throw only leaves the step unshown (\<open>StepMissing\<close>).
\<close>

datatype screen_output =
  StepShown Project int
  | StepMissing Project int
  | CompletionShown Project
  | SelectionShown
  | ScanningShown
  | ToolReply string

text \<open>
  A call of \<open>handleVoiceTranscription\<close> suspended at one of its two \<open>await\<close>s, with the
  command it carries: waiting for \<open>updateCurrentBarcode()\<close>, or waiting for
  \<open>processVoiceCommandWithAI(command, CURRENT_BARCODE, session)\<close>, the resolution it
  started for the barcode kept here.
\<close>

datatype handler = AwaitBarcode string | AwaitResolution string string

text \<open>
  The server as one connected session sees it: the session's entry of \<open>this.sessions\<close>,
  the process-wide \<open>CURRENT_BARCODE\<close>, the suspended handlers and the outputs so far.
\<close>

record server =
  sess :: session_state
  CURRENT_BARCODE :: "string option"
  pending :: "handler list"
  shown :: "screen_output list"

text \<open>
  What can happen to the session, each at a time \<open>now\<close>: a transcription arrives
  (\<open>isFinal\<close>, \<open>text\<close>); the barcode fetch or the resolution awaited by the suspended
  handler at a position settles; a tool is called; the hosted dataset arrives.
\<close>

datatype input =
  Transcription bool "string option"
  | BarcodeSettled nat "string option"
  | ResolutionSettled nat "Project option"
  | ToolCall string
  | S3Loaded S3ProductData

definition onSession :: "int \<Rightarrow> string option \<Rightarrow> server" where
  "onSession now current =
     \<lparr>sess = \<lparr>state = Welcome, currentProject = None, currentStep = 0, startTime = now,
              availableProjects = Map.empty, stepsGenerated = False\<rparr>,
      CURRENT_BARCODE = current, pending = [], shown = []\<rparr>"

definition display :: "screen_output \<Rightarrow> server \<Rightarrow> server" where
  "display out srv = srv\<lparr>shown := shown srv @ [out]\<rparr>"

definition showInstructionStep :: "server \<Rightarrow> Project \<Rightarrow> int \<Rightarrow> server" where
  "showInstructionStep srv project stepIndex =
     (if 0 \<le> stepIndex \<and> stepIndex < int (length (steps project))
      then display (StepShown project stepIndex) srv
      else display (StepMissing project stepIndex) srv)"

definition handleNextStep :: "server \<Rightarrow> server" where
  "handleNextStep srv =
     (case currentProject (sess srv) of
        None \<Rightarrow> srv
      | Some project \<Rightarrow>
          (if currentStep (sess srv) < totalSteps project - 1
           then showInstructionStep
                  (srv\<lparr>sess := (sess srv)\<lparr>currentStep := currentStep (sess srv) + 1\<rparr>\<rparr>)
                  project (currentStep (sess srv) + 1)
           else display (CompletionShown project)
                  (srv\<lparr>sess := (sess srv)\<lparr>state := Completed\<rparr>\<rparr>)))"

definition handlePreviousStep :: "server \<Rightarrow> server" where
  "handlePreviousStep srv =
     (case currentProject (sess srv) of
        None \<Rightarrow> srv
      | Some project \<Rightarrow>
          (if currentStep (sess srv) \<le> 0 then srv
           else showInstructionStep
                  (srv\<lparr>sess := (sess srv)\<lparr>currentStep := currentStep (sess srv) - 1\<rparr>\<rparr>)
                  project (currentStep (sess srv) - 1)))"

definition handleNewProject :: "server \<Rightarrow> int \<Rightarrow> server" where
  "handleNewProject srv now =
     display SelectionShown
       (srv\<lparr>sess := (sess srv)\<lparr>state := Selecting, currentStep := 0, currentProject := None,
                              startTime := now, stepsGenerated := False\<rparr>\<rparr>)"

definition handleProjectSelection :: "server \<Rightarrow> int \<Rightarrow> string \<Rightarrow> server" where
  "handleProjectSelection srv now projectId =
     (case availableProjects (sess srv) projectId of
        None \<Rightarrow> srv
      | Some project \<Rightarrow>
          showInstructionStep
            (srv\<lparr>sess := (sess srv)\<lparr>state := Building, currentProject := Some project,
                                   currentStep := 0, startTime := now\<rparr>\<rparr>)
            project 0)"

definition says_next :: "string \<Rightarrow> bool" where
  "says_next command =
     (includes_str command ''next'' \<or> includes_str command ''continue'' \<or>
      includes_str command ''forward'')"

definition says_back :: "string \<Rightarrow> bool" where
  "says_back command =
     (includes_str command ''back'' \<or> includes_str command ''previous'' \<or>
      includes_str command ''last'')"

definition says_repeat :: "string \<Rightarrow> bool" where
  "says_repeat command =
     (includes_str command ''repeat'' \<or> includes_str command ''again'' \<or>
      includes_str command ''what'')"

definition says_restart :: "string \<Rightarrow> bool" where
  "says_restart command =
     (includes_str command ''start over'' \<or> includes_str command ''restart'' \<or>
      includes_str command ''beginning'')"

definition says_new :: "string \<Rightarrow> bool" where
  "says_new command =
     (includes_str command ''new'' \<or> includes_str command ''another'' \<or>
      includes_str command ''different'')"

text \<open>The \<open>building\<close> branch of \<open>processVoiceCommand\<close>; a command that matches nothing falls through.\<close>

definition navigate :: "server \<Rightarrow> Project \<Rightarrow> string \<Rightarrow> server" where
  "navigate srv project command =
     (if says_next command then handleNextStep srv
      else if says_back command then handlePreviousStep srv
      else if says_repeat command
        then showInstructionStep srv project (currentStep (sess srv))
      else if says_restart command
        then showInstructionStep (srv\<lparr>sess := (sess srv)\<lparr>currentStep := 0\<rparr>\<rparr>) project 0
      else srv)"

definition processVoiceCommand :: "server \<Rightarrow> int \<Rightarrow> string \<Rightarrow> server" where
  "processVoiceCommand srv now command =
     (case state (sess srv) of
        Welcome \<Rightarrow> display ScanningShown srv
      | Selecting \<Rightarrow>
          (case CURRENT_BARCODE srv of
             Some b \<Rightarrow>
               (if b \<noteq> [] \<and> availableProjects (sess srv) (''barcode_'' @ b) \<noteq> None
                then handleProjectSelection srv now (''barcode_'' @ b)
                else if availableProjects (sess srv) ''s3_product'' \<noteq> None
                then handleProjectSelection srv now ''s3_product''
                else srv)
           | None \<Rightarrow>
               (if availableProjects (sess srv) ''s3_product'' \<noteq> None
                then handleProjectSelection srv now ''s3_product''
                else srv))
      | Building \<Rightarrow>
          (case currentProject (sess srv) of
             None \<Rightarrow> srv
           | Some project \<Rightarrow> navigate srv project command)
      | Completed \<Rightarrow> (if says_new command then handleNewProject srv now else srv))"

text \<open>The navigation words that \<open>handleVoiceTranscription\<close> itself looks for.\<close>

definition direct_navigation :: "string \<Rightarrow> bool" where
  "direct_navigation command =
     (includes_str command ''next'' \<or> includes_str command ''continue'' \<or>
      includes_str command ''back'' \<or> includes_str command ''previous'' \<or>
      includes_str command ''repeat'' \<or> includes_str command ''again'' \<or>
      includes_str command ''start over'' \<or> includes_str command ''restart'')"

text \<open>\<open>handleVoiceTranscription\<close> up to its first \<open>await\<close>.\<close>

definition handleVoiceTranscription :: "server \<Rightarrow> int \<Rightarrow> bool \<Rightarrow> string option \<Rightarrow> server" where
  "handleVoiceTranscription srv now isFinal text =
     (if \<not> isFinal then srv
      else (case text of
              None \<Rightarrow> srv
            | Some t \<Rightarrow>
                (let command = trim (toLowerCase t) in
                 if command = [] then srv
                 else if state (sess srv) = Building \<and> direct_navigation command
                   then processVoiceCommand srv now command
                 else if state (sess srv) = Welcome \<and> \<not> stepsGenerated (sess srv)
                   then srv\<lparr>pending := pending srv @ [AwaitBarcode command]\<rparr>
                 else processVoiceCommand srv now command)))"

definition remove_at :: "nat \<Rightarrow> 'a list \<Rightarrow> 'a list" where
  "remove_at k xs = take k xs @ drop (Suc k) xs"

text \<open>
  \<open>updateCurrentBarcode\<close> completes with what \<open>getCurrentBarcode\<close> gave; the handler
  returns when \<open>CURRENT_BARCODE\<close> is still empty and starts the resolution otherwise.
\<close>

definition updateCurrentBarcode :: "server \<Rightarrow> string option \<Rightarrow> server" where
  "updateCurrentBarcode srv fetched =
     (if truthy fetched \<and> fetched \<noteq> CURRENT_BARCODE srv
      then srv\<lparr>CURRENT_BARCODE := fetched\<rparr> else srv)"

definition barcode_settled :: "server \<Rightarrow> nat \<Rightarrow> string option \<Rightarrow> server" where
  "barcode_settled srv k fetched =
     (if k < length (pending srv)
      then (case pending srv ! k of
              AwaitBarcode command \<Rightarrow>
                (let srv1 = updateCurrentBarcode srv fetched in
                 case CURRENT_BARCODE srv1 of
                   None \<Rightarrow> srv1\<lparr>pending := remove_at k (pending srv1)\<rparr>
                 | Some b \<Rightarrow>
                     (if b = [] then srv1\<lparr>pending := remove_at k (pending srv1)\<rparr>
                      else srv1\<lparr>pending := (pending srv1)[k := AwaitResolution command b]\<rparr>))
            | AwaitResolution command b \<Rightarrow> srv)
      else srv)"

text \<open>The rest of the handler, once \<open>processVoiceCommandWithAI\<close> has returned \<open>aiProject\<close>.\<close>

definition resolution_settled :: "server \<Rightarrow> int \<Rightarrow> nat \<Rightarrow> Project option \<Rightarrow> server" where
  "resolution_settled srv now k aiProject =
     (if k < length (pending srv)
      then (case pending srv ! k of
              AwaitBarcode command \<Rightarrow> srv
            | AwaitResolution command b \<Rightarrow>
                (let srv1 = srv\<lparr>pending := remove_at k (pending srv)\<rparr>;
                     srv2 = (case aiProject of
                               None \<Rightarrow> srv1
                             | Some p \<Rightarrow>
                                 handleProjectSelection
                                   (srv1\<lparr>sess := (sess srv1)
                                      \<lparr>availableProjects :=
                                         (availableProjects (sess srv1))(project_id p \<mapsto> p),
                                       stepsGenerated := True\<rparr>\<rparr>)
                                   now (project_id p))
                 in processVoiceCommand srv2 now command))
      else srv)"

text \<open>
  \<open>onToolCall\<close>, for a tool call that finds the session. The reply of the two
  navigation tools reads \<open>steps[currentStep].description\<close>; the other tools leave
  the session as it is.
\<close>

definition step_reply :: "Project \<Rightarrow> int \<Rightarrow> screen_output" where
  "step_reply project i =
     (if 0 \<le> i \<and> i < int (length (steps project))
      then ToolReply (''Step '' @ show_int (i + 1) @ '': '' @ description (steps project ! nat i))
      else StepMissing project i)"

definition onToolCall :: "server \<Rightarrow> string \<Rightarrow> server" where
  "onToolCall srv toolId =
     (if toolId = ''next_step'' then
        (case currentProject (sess srv) of
           None \<Rightarrow> display (ToolReply ''No more steps available.'') srv
         | Some project \<Rightarrow>
             (if currentStep (sess srv) < totalSteps project - 1
              then display (step_reply project (currentStep (sess srv) + 1))
                     (srv\<lparr>sess := (sess srv)\<lparr>currentStep := currentStep (sess srv) + 1\<rparr>\<rparr>)
              else display (ToolReply ''No more steps available.'') srv))
      else if toolId = ''previous_step'' then
        (case currentProject (sess srv) of
           None \<Rightarrow> display (ToolReply ''Already at the first step.'') srv
         | Some project \<Rightarrow>
             (if currentStep (sess srv) > 0
              then display (step_reply project (currentStep (sess srv) - 1))
                     (srv\<lparr>sess := (sess srv)\<lparr>currentStep := currentStep (sess srv) - 1\<rparr>\<rparr>)
              else display (ToolReply ''Already at the first step.'') srv))
      else srv)"

definition loadS3Data :: "server \<Rightarrow> S3ProductData \<Rightarrow> server" where
  "loadS3Data srv s3Data =
     srv\<lparr>sess := (sess srv)
        \<lparr>availableProjects := (availableProjects (sess srv))(''s3_product'' \<mapsto> s3Project s3Data)\<rparr>\<rparr>"

fun server_step :: "server \<Rightarrow> int \<times> input \<Rightarrow> server" where
  "server_step srv (now, Transcription isFinal text) = handleVoiceTranscription srv now isFinal text"
| "server_step srv (now, BarcodeSettled k fetched) = barcode_settled srv k fetched"
| "server_step srv (now, ResolutionSettled k aiProject) = resolution_settled srv now k aiProject"
| "server_step srv (now, ToolCall toolId) = onToolCall srv toolId"
| "server_step srv (now, S3Loaded s3Data) = loadS3Data srv s3Data"

definition run :: "server \<Rightarrow> (int \<times> input) list \<Rightarrow> server" where
  "run srv inputs = foldl server_step srv inputs"

section \<open>Observations on a trace\<close>

text \<open>
  The events of the search chain: the fallback attempts, the pause after an attempt that
  came back empty, and the request to Exa.
\<close>

fun chain_event :: "event \<Rightarrow> bool" where
  "chain_event (TryFallback q) = True"
| "chain_event (Delay n) = True"
| "chain_event (ExaRequest q) = True"
| "chain_event x = False"

definition chain :: "event list \<Rightarrow> event list" where
  "chain tr = filter chain_event tr"

text \<open>The chain events of a run of attempts that all came back empty.\<close>

definition empty_attempts :: "string list \<Rightarrow> event list" where
  "empty_attempts qs = concat (map (\<lambda>q. [TryFallback q, Delay 500]) qs)"

text \<open>
  One pass of the fallback loop up to its test, and the state after a run of passes that
  each went on to the pause.
\<close>

definition attempt :: "env \<Rightarrow> pstate \<Rightarrow> string \<Rightarrow> SearchResponse option \<times> pstate" where
  "attempt e st q = searchWithGoogle e (emit (TryFallback q) st) q"

fun after_empty :: "env \<Rightarrow> pstate \<Rightarrow> string list \<Rightarrow> pstate" where
  "after_empty e st [] = st"
| "after_empty e st (q # qs) = after_empty e (emit (Delay 500) (snd (attempt e st q))) qs"

text \<open>
  Pass number \<open>j\<close> of the loop over \<open>qs\<close>, run after the passes before it all went on
  to the pause.
\<close>

definition nth_attempt ::
  "env \<Rightarrow> pstate \<Rightarrow> string list \<Rightarrow> nat \<Rightarrow> SearchResponse option \<times> pstate" where
  "nth_attempt e st qs j = attempt e (after_empty e st (take j qs)) (qs ! j)"



text \<open>Requests to a generation provider (Cerebras or Anthropic).\<close>

fun llm_event :: "event \<Rightarrow> bool" where
  "llm_event (CerebrasRequest r) = True"
| "llm_event (AnthropicRequest t u) = True"
| "llm_event x = False"


text \<open>
  The session's step index is in range: never negative, 0 when no project is active, and
  below \<open>totalSteps\<close> of the active project unless it is 0. The same for an index that
  was rendered, as a step or as a tool reply.
\<close>

definition in_range :: "server \<Rightarrow> bool" where
  "in_range srv =
     (0 \<le> currentStep (sess srv) \<and>
      (case currentProject (sess srv) of
         None \<Rightarrow> currentStep (sess srv) = 0
       | Some p \<Rightarrow> currentStep (sess srv) = 0 \<or> currentStep (sess srv) < totalSteps p))"

fun rendered_ok :: "screen_output \<Rightarrow> bool" where
  "rendered_ok (StepShown p i) = (0 \<le> i \<and> (i = 0 \<or> i < totalSteps p))"
| "rendered_ok (StepMissing p i) = (0 \<le> i \<and> (i = 0 \<or> i < totalSteps p))"
| "rendered_ok out = True"

definition session_ok :: "server \<Rightarrow> bool" where
  "session_ok srv = (in_range srv \<and> list_all rendered_ok (shown srv))"

text \<open>The number of suspended handlers that wait for a resolution they started.\<close>

fun awaiting_resolution :: "handler \<Rightarrow> bool" where
  "awaiting_resolution (AwaitResolution c b) = True"
| "awaiting_resolution (AwaitBarcode c) = False"

definition in_flight :: "server \<Rightarrow> nat" where
  "in_flight srv = length (filter awaiting_resolution (pending srv))"

section \<open>Sample inputs\<close>

text \<open>An empty cache and no effects yet; environments with every provider down or up.\<close>

definition fresh :: pstate where
  "fresh = \<lparr>projectCache = Map.empty, trace = []\<rparr>"

definition env_offline :: env where
  "env_offline =
     \<lparr>CEREBRAS_API_KEY = False, SERPAPI_KEY = False, EXA_API_KEY = False,
      ANTHROPIC_API_KEY = False,
      cerebras = (\<lambda>t r. ChatError), serpapi = (\<lambda>t q n. SerpError), exa = (\<lambda>t q. ExaError),
      anthropic = (\<lambda>t title u. AnthropicError), JSON_parse = (\<lambda>s. None),
      showTextWall = (\<lambda>t lines. Displayed)\<rparr>"

definition quoted :: "string \<Rightarrow> string" where
  "quoted s = CHR 0x22 # s @ [CHR 0x22]"

definition json_one_step :: string where
  "json_one_step =
     ''[{'' @ quoted ''id'' @ '':7,'' @ quoted ''title'' @ '':'' @ quoted ''Attach legs'' @ '','' @
     quoted ''description'' @ '':'' @ quoted ''Screw the four legs on'' @ ''}]''"

definition parsed_one_step :: "InstructionStep list" where
  "parsed_one_step =
     [\<lparr>step_id = 7, step_title = ''Attach legs'', description = ''Screw the four legs on'',
       details = None, tips = None, diagram = None\<rparr>]"

fun online_chat :: "nat \<Rightarrow> chat_request \<Rightarrow> chat_outcome" where
  "online_chat t (IdentifyPrompt b) = ChatContent (Some (b @ '' product''))"
| "online_chat t (AnalyzePrompt b its) = ChatContent (Some ''Acme Widget'')"
| "online_chat t (InstructionPrompt title) = ChatContent (Some (title @ '' assembly instructions''))"

definition organic_manual :: OrganicResult where
  "organic_manual =
     \<lparr>or_title = Str ''Acme Widget Manual'', or_link = Some ''https://acme.example/widget.pdf'',
      or_snippet = Some ''Assembly manual'', displayed_link = Some ''acme.example''\<rparr>"

definition env_online :: env where
  "env_online =
     \<lparr>CEREBRAS_API_KEY = True, SERPAPI_KEY = True, EXA_API_KEY = True,
      ANTHROPIC_API_KEY = True,
      cerebras = online_chat,
      serpapi = (\<lambda>t q n. SerpData (Some 1) (Some [organic_manual])),
      exa = (\<lambda>t q. ExaError),
      anthropic = (\<lambda>t title u. AnthropicText (''Here are the steps: '' @ json_one_step)),
      JSON_parse = (\<lambda>s. if s = json_one_step then Some parsed_one_step else None),
      showTextWall = (\<lambda>t lines. Displayed)\<rparr>"

definition acme_hit :: ExaResult where
  "acme_hit = \<lparr>exa_title = Some ''Acme Widget Manual'',
                exa_url = Some ''https://acme.example/manual'', highlights = None\<rparr>"

text \<open>The primary provider answers every query with no items; Exa has one result.\<close>

definition env_exa_only :: env where
  "env_exa_only =
     env_online\<lparr>serpapi := (\<lambda>t q n. SerpData (Some 0) (Some [])),
                exa := (\<lambda>t q. ExaData (Some [acme_hit]))\<rparr>"

fun no_query_chat :: "nat \<Rightarrow> chat_request \<Rightarrow> chat_outcome" where
  "no_query_chat t (InstructionPrompt title) = ChatError"
| "no_query_chat t r = online_chat t r"

definition env_no_query :: env where
  "env_no_query = env_online\<lparr>cerebras := no_query_chat\<rparr>"




text \<open>The generation provider answers with an empty array, which parses to no steps.\<close>

definition env_no_steps :: env where
  "env_no_steps =
     env_online\<lparr>anthropic := (\<lambda>t title u. AnthropicText ''[]''),
                JSON_parse := (\<lambda>s. if s = ''[]'' then Some [] else None)\<rparr>"

definition B13 :: string where
  "B13 = ''0123456789012''"

text \<open>The queries of the fallback attempts, in order.\<close>

fun attempted :: "event list \<Rightarrow> string list" where
  "attempted [] = []"
| "attempted (TryFallback q # tr) = q # attempted tr"
| "attempted (x # tr) = attempted tr"

text \<open>Anthropic is configured and its answer holds the empty array.\<close>

definition env_empty_array :: env where
  "env_empty_array =
     env_offline\<lparr>ANTHROPIC_API_KEY := True,
                 anthropic := (\<lambda>t title u. AnthropicText ''Here you go: [] (no steps found)''),
                 JSON_parse := (\<lambda>s. if s = ''[]'' then Some [] else None)\<rparr>"







text \<open>The state after one run of the pipeline under \<open>env_exa_only\<close>.\<close>

definition after_exa :: pstate where
  "after_exa =
     \<lparr>projectCache = Map.empty,
      trace =
        [CerebrasRequest (IdentifyPrompt B13), SerpApiRequest (B13 @ '' product'') 5,
         TryFallback (B13 @ '' product''), SerpApiRequest (B13 @ '' product'') 5, Delay 500,
         TryFallback (''UPC '' @ B13), SerpApiRequest (''UPC '' @ B13) 5, Delay 500,
         TryFallback (''barcode '' @ B13), SerpApiRequest (''barcode '' @ B13) 5, Delay 500,
         TryFallback B13, SerpApiRequest B13 5, Delay 500,
         ExaRequest (B13 @ '' product'')]\<rparr>"





definition identified :: pstate where
  "identified = \<lparr>projectCache = Map.empty, trace = [CerebrasRequest (IdentifyPrompt B13)]\<rparr>"

definition searched :: pstate where
  "searched = \<lparr>projectCache = Map.empty,
                trace = [CerebrasRequest (IdentifyPrompt B13),
                         SerpApiRequest (B13 @ '' product'') 5]\<rparr>"

text \<open>The primary provider has results for the third fallback query only.\<close>

definition env_third :: env where
  "env_third =
     env_online\<lparr>serpapi := (\<lambda>t q n. if q = ''barcode 0123456789012''
                                    then SerpData (Some 1) (Some [organic_manual])
                                    else SerpData (Some 0) (Some []))\<rparr>"

text \<open>Sample sessions: the inputs of one session, in order of arrival.\<close>

definition acme_project :: Project where
  "acme_project = exa_project B13 (B13 @ '' product'') acme_hit"

definition started :: "(int \<times> input) list" where
  "started =
     [(1, Transcription True (Some ''Hello Marvis'')),
      (2, BarcodeSettled 0 (Some B13)),
      (3, ResolutionSettled 0 (Some acme_project))]"

text \<open>The project of a resolution whose synthesizer returned no steps, and its session.\<close>

definition no_steps_project :: Project where
  "no_steps_project = barcode_project B13 ''Acme Widget'' []"

definition started_no_steps :: "(int \<times> input) list" where
  "started_no_steps =
     [(1, Transcription True (Some ''start'')),
      (2, BarcodeSettled 0 (Some B13)),
      (3, ResolutionSettled 0 (Some no_steps_project))]"

definition two_nexts :: "(int \<times> input) list" where
  "two_nexts =
     [(4, Transcription True (Some ''Next'')),
      (5, Transcription True (Some '' next step please ''))]"

definition two_commands :: "(int \<times> input) list" where
  "two_commands =
     [(1, Transcription True (Some ''start'')),
      (2, Transcription True (Some ''go'')),
      (3, BarcodeSettled 0 (Some B13)),
      (4, BarcodeSettled 1 (Some B13))]"

section \<open>Token source: stale-on-error fallback\<close>

text \<open>
  C8, as stated: the token source answers absent only when the fetch fails and the cache
  is empty. It fails on a stale cache holding 123 when the request succeeds with a body
  that carries no barcode: the answer is absent although the cache is populated.
\<close>

theorem C8_counterexample:
  "fst (getCurrentBarcode stale123 40000 (FetchData None)) = None
   \<and> cachedBarcode stale123 = Some ''123''
   \<and> FetchData None \<noteq> FetchError"
  by (simp add: getCurrentBarcode_def stale123_def cacheTimeout_def)

text \<open>
  C8, amended: with a populated cache younger than 30 s the cache is returned and no
  request is issued; otherwise, when the request throws, the cached value (however old) is
  returned if there is one and absent if there is none; and the answer is absent exactly
  when a request was issued and either it threw with an empty cache or its body carried no
  barcode.
\<close>

theorem C8_token_source:
  "(truthy (cachedBarcode svc) \<and> now - lastFetch svc < 30000 \<longrightarrow>
      getCurrentBarcode svc now fetch = (cachedBarcode svc, svc, False))
   \<and> (truthy (cachedBarcode svc) \<and> \<not> now - lastFetch svc < 30000 \<longrightarrow>
      getCurrentBarcode svc now FetchError = (cachedBarcode svc, svc, True))
   \<and> (\<not> truthy (cachedBarcode svc) \<longrightarrow>
      getCurrentBarcode svc now FetchError = (None, svc, True))
   \<and> (fst (getCurrentBarcode svc now fetch) = None \<longleftrightarrow>
        \<not> (truthy (cachedBarcode svc) \<and> now - lastFetch svc < 30000)
        \<and> (fetch = FetchError \<and> \<not> truthy (cachedBarcode svc)
           \<or> (\<exists>b. fetch = FetchData b \<and> \<not> truthy b)))"
  by (cases fetch; cases "cachedBarcode svc")
     (auto simp: getCurrentBarcode_def cacheTimeout_def elim: truthy.elims)

theorem C8_token_source_witness:
  "truthy (cachedBarcode stale123) \<and> 1005 - lastFetch stale123 < 30000
   \<and> getCurrentBarcode stale123 1005 FetchError = (Some ''123'', stale123, False)
   \<and> \<not> 40000 - lastFetch stale123 < 30000
   \<and> getCurrentBarcode stale123 40000 FetchError = (Some ''123'', stale123, True)
   \<and> \<not> truthy (cachedBarcode new_BarcodeService)
   \<and> getCurrentBarcode new_BarcodeService 40000 FetchError = (None, new_BarcodeService, True)"
  using C8_token_source [of stale123 1005 FetchError]
        C8_token_source [of stale123 40000 FetchError]
        C8_token_source [of new_BarcodeService 40000 FetchError]
  by (simp add: stale123_def new_BarcodeService_def)

section \<open>Manual locator: first match\<close>










section \<open>Step synthesis: the fallback templates\<close>

lemma template_lengths:
  "length lego_steps = 5" "length furniture_steps = 5" "length generic_steps = 5"
  by (simp_all add: lego_steps_def furniture_steps_def generic_steps_def)

lemma fallback_cases:
  "generateFallbackInstructions t = lego_steps \<or>
   generateFallbackInstructions t = furniture_steps \<or>
   generateFallbackInstructions t = generic_steps"
  by (simp add: generateFallbackInstructions_def)

text \<open>
  The fallback path: when no generation provider is configured, or the request fails, or
  the answer holds no bracketed array, or the array does not parse, the synthesizer
  returns the template chosen by keywords of the lower-cased title, each of 5 steps.
\<close>

lemma fallback_templates:
  "(\<not> ANTHROPIC_API_KEY e
      \<or> anthropic e (tick st) t u = AnthropicError
      \<or> (\<exists>c. anthropic e (tick st) t u = AnthropicText c \<and> match_array c = None)
      \<or> (\<exists>c j. anthropic e (tick st) t u = AnthropicText c \<and> match_array c = Some j
                \<and> JSON_parse e j = None)
    \<longrightarrow> fst (generateInstructionsFromPDF e st t u) = generateFallbackInstructions t)
   \<and> (includes_str (toLowerCase t) ''lego'' \<longrightarrow> generateFallbackInstructions t = lego_steps)
   \<and> (\<not> includes_str (toLowerCase t) ''lego''
        \<and> (includes_str (toLowerCase t) ''shelf'' \<or> includes_str (toLowerCase t) ''desk''
           \<or> includes_str (toLowerCase t) ''table'' \<or> includes_str (toLowerCase t) ''chair'')
      \<longrightarrow> generateFallbackInstructions t = furniture_steps)
   \<and> (\<not> includes_str (toLowerCase t) ''lego''
        \<and> \<not> includes_str (toLowerCase t) ''shelf'' \<and> \<not> includes_str (toLowerCase t) ''desk''
        \<and> \<not> includes_str (toLowerCase t) ''table'' \<and> \<not> includes_str (toLowerCase t) ''chair''
      \<longrightarrow> generateFallbackInstructions t = generic_steps)
   \<and> length (generateFallbackInstructions t) = 5
   \<and> generateFallbackInstructions t \<noteq> []"
proof -
  have len: "length (generateFallbackInstructions t) = 5"
    using fallback_cases [of t] template_lengths by auto
  then have ne: "generateFallbackInstructions t \<noteq> []"
    by auto
  have fb: "\<not> ANTHROPIC_API_KEY e
      \<or> anthropic e (tick st) t u = AnthropicError
      \<or> (\<exists>c. anthropic e (tick st) t u = AnthropicText c \<and> match_array c = None)
      \<or> (\<exists>c j. anthropic e (tick st) t u = AnthropicText c \<and> match_array c = Some j
                \<and> JSON_parse e j = None)
    \<longrightarrow> fst (generateInstructionsFromPDF e st t u) = generateFallbackInstructions t"
    by (auto simp: generateInstructionsFromPDF_def Let_def)
  show ?thesis
    using len ne fb
    by (simp add: generateFallbackInstructions_def isLego_def isFurniture_def)
qed

section \<open>Effects of the pipeline stages on the state\<close>

lemma trace_emit [simp]: "trace (emit x st) = trace st @ [x]"
  by (simp add: emit_def)

lemma cache_emit [simp]: "projectCache (emit x st) = projectCache st"
  by (simp add: emit_def)

lemma tick_emit [simp]: "tick (emit x st) = Suc (tick st)"
  by (simp add: tick_def)

lemma trace_identify:
  "trace (snd (identifyProductFromBarcode e st b)) =
     trace st @ (if CEREBRAS_API_KEY e then [CerebrasRequest (IdentifyPrompt b)] else [])"
  by (simp add: identifyProductFromBarcode_def)

lemma cache_identify [simp]:
  "projectCache (snd (identifyProductFromBarcode e st b)) = projectCache st"
  by (simp add: identifyProductFromBarcode_def)

lemma trace_google:
  "trace (snd (searchWithGoogle e st q)) =
     trace st @ (if SERPAPI_KEY e then [SerpApiRequest q 5] else [])"
  by (simp add: searchWithGoogle_def split: serp_outcome.split)

lemma cache_google [simp]: "projectCache (snd (searchWithGoogle e st q)) = projectCache st"
  by (simp add: searchWithGoogle_def split: serp_outcome.split)

lemma trace_pdfs:
  "trace (snd (searchGoogleForPDFs e st q)) =
     trace st @ (if SERPAPI_KEY e then [SerpApiRequest (pdfQuery q) 10] else [])"
  by (simp add: searchGoogleForPDFs_def split: serp_outcome.split)

lemma cache_pdfs [simp]: "projectCache (snd (searchGoogleForPDFs e st q)) = projectCache st"
  by (simp add: searchGoogleForPDFs_def split: serp_outcome.split)

lemma trace_exa:
  "trace (snd (searchWithExa e st q)) =
     trace st @ (if EXA_API_KEY e then [ExaRequest q] else [])"
  by (simp add: searchWithExa_def split: exa_outcome.split)

lemma cache_exa [simp]: "projectCache (snd (searchWithExa e st q)) = projectCache st"
  by (simp add: searchWithExa_def split: exa_outcome.split)

lemma trace_analyze:
  "\<exists>new. trace (snd (analyzeProductFromGoogleResults e st b r)) = trace st @ new
      \<and> chain new = [] \<and> filter llm_event new = new \<and> (\<forall>x \<in> set new. \<exists>c. x = CerebrasRequest c)"
  by (simp add: analyzeProductFromGoogleResults_def chain_def split: option.split)

lemma cache_analyze [simp]:
  "projectCache (snd (analyzeProductFromGoogleResults e st b r)) = projectCache st"
  by (simp add: analyzeProductFromGoogleResults_def split: option.split)

lemma trace_query:
  "trace (snd (generateInstructionQuery e st v t)) =
     trace st @ (if CEREBRAS_API_KEY e then [CerebrasRequest (InstructionPrompt t)] else [])"
  by (simp add: generateInstructionQuery_def)

lemma cache_query [simp]:
  "projectCache (snd (generateInstructionQuery e st v t)) = projectCache st"
  by (simp add: generateInstructionQuery_def)

lemma trace_generate:
  "trace (snd (generateInstructionsFromPDF e st t u)) =
     trace st @ (if ANTHROPIC_API_KEY e then [AnthropicRequest t u] else [])"
  by (simp add: generateInstructionsFromPDF_def Let_def
      split: anthropic_outcome.split option.split)

lemma cache_generate [simp]:
  "projectCache (snd (generateInstructionsFromPDF e st t u)) = projectCache st"
  by (simp add: generateInstructionsFromPDF_def Let_def
      split: anthropic_outcome.split option.split)

lemma chain_append [simp]: "chain (xs @ ys) = chain xs @ chain ys"
  by (simp add: chain_def)

lemma chain_google [simp]: "chain (trace (snd (searchWithGoogle e st q))) = chain (trace st)"
  by (simp add: trace_google chain_def)

lemma chain_fallbacks:
  "try_fallbacks e st qs cur = (r, st') \<Longrightarrow>
     (\<exists>k < length qs. has_items r \<and> (\<exists>stk. r = fst (searchWithGoogle e stk (qs ! k))) \<and>
         chain (trace st') = chain (trace st) @ empty_attempts (take k qs) @ [TryFallback (qs ! k)])
     \<or> ((qs = [] \<or> \<not> has_items r) \<and> chain (trace st') = chain (trace st) @ empty_attempts qs)"
proof (induction qs arbitrary: st cur)
  case Nil
  then show ?case by (simp add: empty_attempts_def)
next
  case (Cons q qs)
  obtain r1 st1 where g: "searchWithGoogle e (emit (TryFallback q) st) q = (r1, st1)"
    by (cases "searchWithGoogle e (emit (TryFallback q) st) q")
  have c1: "chain (trace st1) = chain (trace st) @ [TryFallback q]"
    using chain_google [of e "emit (TryFallback q) st" q] g by (simp add: chain_def)
  show ?case
  proof (cases "has_items r1")
    case True
    with Cons.prems g have "r = r1" "st' = st1" by simp_all
    moreover have "r1 = fst (searchWithGoogle e (emit (TryFallback q) st) q)"
      using g by simp
    ultimately show ?thesis
      using True c1 by (auto simp: empty_attempts_def intro!: exI [of _ 0])
  next
    case False
    with Cons.prems g have rec: "try_fallbacks e (emit (Delay 500) st1) qs r1 = (r, st')"
      by simp
    have c2: "chain (trace (emit (Delay 500) st1)) = chain (trace st) @ empty_attempts [q]"
      using c1 by (simp add: empty_attempts_def chain_def)
    from Cons.IH [OF rec] show ?thesis
    proof
      assume "\<exists>k < length qs. has_items r \<and> (\<exists>stk. r = fst (searchWithGoogle e stk (qs ! k))) \<and>
         chain (trace st') =
           chain (trace (emit (Delay 500) st1)) @ empty_attempts (take k qs) @ [TryFallback (qs ! k)]"
      then obtain k stk where k: "k < length qs" "has_items r"
        "r = fst (searchWithGoogle e stk (qs ! k))"
        "chain (trace st') =
           chain (trace (emit (Delay 500) st1)) @ empty_attempts (take k qs) @ [TryFallback (qs ! k)]"
        by blast
      have "chain (trace st') =
          chain (trace st) @ empty_attempts (take (Suc k) (q # qs)) @ [TryFallback ((q # qs) ! Suc k)]"
        using k(4) c2 by (simp add: empty_attempts_def)
      moreover have "r = fst (searchWithGoogle e stk ((q # qs) ! Suc k))"
        using k(3) by simp
      moreover have "Suc k < length (q # qs)"
        using k(1) by simp
      ultimately show ?thesis
        using k(2) by blast
    next
      assume a: "(qs = [] \<or> \<not> has_items r) \<and>
         chain (trace st') = chain (trace (emit (Delay 500) st1)) @ empty_attempts qs"
      have "r = r1" if "qs = []"
        using rec that by simp
      then have "\<not> has_items r"
        using a False by blast
      moreover have "chain (trace st') = chain (trace st) @ empty_attempts (q # qs)"
        using a c2 by (simp add: empty_attempts_def)
      ultimately show ?thesis by simp
    qed
  qed
qed

lemma chain_identify [simp]:
  "chain (trace (snd (identifyProductFromBarcode e st b))) = chain (trace st)"
  by (simp add: trace_identify chain_def)

lemma chain_analyze [simp]:
  "chain (trace (snd (analyzeProductFromGoogleResults e st b r))) = chain (trace st)"
  by (simp add: analyzeProductFromGoogleResults_def chain_def split: option.split)

lemma chain_query [simp]:
  "chain (trace (snd (generateInstructionQuery e st v t))) = chain (trace st)"
  by (simp add: trace_query chain_def)

lemma chain_pdfs [simp]:
  "chain (trace (snd (searchGoogleForPDFs e st q))) = chain (trace st)"
  by (simp add: trace_pdfs chain_def)

lemma chain_generate [simp]:
  "chain (trace (snd (generateInstructionsFromPDF e st t u))) = chain (trace st)"
  by (simp add: trace_generate chain_def)

lemma chain_exa:
  "chain (trace (snd (searchWithExa e st q))) =
     chain (trace st) @ (if EXA_API_KEY e then [ExaRequest q] else [])"
  by (simp add: trace_exa chain_def)

lemma google_effect:
  "searchWithGoogle e st q = (r, st') \<Longrightarrow>
     chain (trace st') = chain (trace st) \<and> projectCache st' = projectCache st"
  using chain_google [of e st q] cache_google [of e st q] by simp

lemma show_text_effect:
  "show_text e st lines = (x, st') \<Longrightarrow>
     chain (trace st') = chain (trace st) \<and> projectCache st' = projectCache st"
  by (auto simp: show_text_def chain_def split: display_outcome.splits)

text \<open>What the last stage does to the state: it stores the project it returns.\<close>

lemma resolve_instructions_effect:
  assumes "resolve_instructions e st b t q s = (x, st')"
  shows "chain (trace st') = chain (trace st)"
    and "x = Inr p \<Longrightarrow> projectCache st' = (projectCache st)(''barcode_'' @ b \<mapsto> p)"
    and "x = Inr p \<Longrightarrow>
           \<exists>st0 u. p = barcode_project b t (fst (generateInstructionsFromPDF e st0 t u))"
proof -
  obtain r1 st1 where a: "searchGoogleForPDFs e st q = (r1, st1)"
    by (cases "searchGoogleForPDFs e st q")
  obtain r2 st2 where b: "(if \<not> has_items r1 then searchWithGoogle e st1 q else (r1, st1)) = (r2, st2)"
    by (cases "if \<not> has_items r1 then searchWithGoogle e st1 q else (r1, st1)")
  have c1: "chain (trace st1) = chain (trace st)" "projectCache st1 = projectCache st"
    using chain_pdfs [of e st q] cache_pdfs [of e st q] a by simp_all
  have c2: "chain (trace st2) = chain (trace st)" "projectCache st2 = projectCache st"
    using b c1 by (auto split: if_splits dest: google_effect)
  define loc where "loc = (if has_items r2 then findFirstValidPDF r2 else Inr None)"
  have all: "chain (trace st') = chain (trace st)
      \<and> (x = Inr p \<longrightarrow> projectCache st' = (projectCache st)(''barcode_'' @ b \<mapsto> p)
            \<and> (\<exists>st0 u. p = barcode_project b t (fst (generateInstructionsFromPDF e st0 t u))))"
  proof (cases loc)
    case (Inl err)
    then have "x = Inl err" "st' = st2"
      using assms a b by (simp_all add: resolve_instructions_def loc_def)
    with c2 show ?thesis by simp
  next
    case (Inr found)
    define pdfUrl where "pdfUrl = (case found of None \<Rightarrow> [] | Some c \<Rightarrow> url c)"
    obtain g st3 where c: "generateInstructionsFromPDF e st2 t pdfUrl = (g, st3)"
      by (cases "generateInstructionsFromPDF e st2 t pdfUrl")
    have c3: "chain (trace st3) = chain (trace st)" "projectCache st3 = projectCache st"
      using chain_generate [of e st2 t pdfUrl] cache_generate [of e st2 t pdfUrl] c c2
      by simp_all
    have g: "g = fst (generateInstructionsFromPDF e st2 t pdfUrl)"
      using c by simp
    have "chain (trace st') = chain (trace st3)
      \<and> (x = Inr p \<longrightarrow> p = barcode_project b t g
            \<and> projectCache st' = (projectCache st3)(''barcode_'' @ b \<mapsto> p))"
      using assms a b c Inr
      by (cases found)
         (auto simp: resolve_instructions_def loc_def pdfUrl_def Let_def cache_set_def
            uploadProjectToS3_def chain_def show_text_def
            split: if_splits display_outcome.splits)
    with c3 g show ?thesis by auto
  qed
  show "chain (trace st') = chain (trace st)"
    using all by simp
  show "x = Inr p \<Longrightarrow> projectCache st' = (projectCache st)(''barcode_'' @ b \<mapsto> p)"
    using all by simp
  show "x = Inr p \<Longrightarrow>
           \<exists>st0 u. p = barcode_project b t (fst (generateInstructionsFromPDF e st0 t u))"
    using all by simp
qed

lemma cache_fallbacks:
  "try_fallbacks e st qs cur = (r, st') \<Longrightarrow> projectCache st' = projectCache st"
proof (induction qs arbitrary: st cur)
  case Nil
  then show ?case by simp
next
  case (Cons q qs)
  obtain r1 st1 where g: "searchWithGoogle e (emit (TryFallback q) st) q = (r1, st1)"
    by (cases "searchWithGoogle e (emit (TryFallback q) st) q")
  then have c: "projectCache st1 = projectCache st"
    using google_effect [OF g] by simp
  show ?case
  proof (cases "has_items r1")
    case True
    with Cons.prems g c show ?thesis by simp
  next
    case False
    with Cons.prems g have "try_fallbacks e (emit (Delay 500) st1) qs r1 = (r, st')"
      by simp
    from Cons.IH [OF this] c show ?thesis by simp
  qed
qed

lemma identified_body_effect:
  assumes "identified_body e st v b r s = (x, st')"
  shows "chain (trace st') = chain (trace st)"
    and "x = Inr (Some p) \<Longrightarrow> projectCache st' = (projectCache st)(''barcode_'' @ b \<mapsto> p)"
    and "x = Inr (Some p) \<Longrightarrow>
           \<exists>t st0 u. p = barcode_project b t (fst (generateInstructionsFromPDF e st0 t u))"
proof -
  obtain ot st1 where a: "analyzeProductFromGoogleResults e st b r = (ot, st1)"
    by (cases "analyzeProductFromGoogleResults e st b r")
  have a1: "chain (trace st1) = chain (trace st)" "projectCache st1 = projectCache st"
    using chain_analyze [of e st b r] cache_analyze [of e st b r] a by simp_all
  have all: "chain (trace st') = chain (trace st)
      \<and> (x = Inr (Some p) \<longrightarrow> projectCache st' = (projectCache st)(''barcode_'' @ b \<mapsto> p)
            \<and> (\<exists>t st0 u. p = barcode_project b t (fst (generateInstructionsFromPDF e st0 t u))))"
  proof (cases ot)
    case None
    with assms a a1 show ?thesis
      by (auto simp: identified_body_def)
  next
    case (Some title)
    obtain d st2 where dsp:
      "(if s then show_text e st1 (identificationText title b) else (Inr (), st1)) = (d, st2)"
      by (cases "if s then show_text e st1 (identificationText title b) else (Inr (), st1)")
    have a2: "chain (trace st2) = chain (trace st)" "projectCache st2 = projectCache st"
      using dsp a1 by (auto split: if_splits dest: show_text_effect)
    show ?thesis
    proof (cases d)
      case (Inl err)
      with assms a Some dsp have "x = Inl err" "st' = st2"
        by (simp_all add: identified_body_def)
      with a2 show ?thesis by simp
    next
      case (Inr u)
      obtain oq st3 where c: "generateInstructionQuery e st2 v title = (oq, st3)"
        by (cases "generateInstructionQuery e st2 v title")
      have a3: "chain (trace st3) = chain (trace st)" "projectCache st3 = projectCache st"
        using chain_query [of e st2 v title] cache_query [of e st2 v title] c a2 by simp_all
      show ?thesis
      proof (cases oq)
        case None
        with assms a Some dsp Inr c a3 show ?thesis
          by (auto simp: identified_body_def)
      next
        case (Some iq)
        obtain y st4 where i: "resolve_instructions e st3 b title iq s = (y, st4)"
          by (cases "resolve_instructions e st3 b title iq s")
        have st: "st' = st4"
          using assms a \<open>ot = Some title\<close> dsp Inr c Some i
          by (cases y) (simp_all add: identified_body_def)
        have xy: "x = Inr (Some p) \<longrightarrow> y = Inr p"
          using assms a \<open>ot = Some title\<close> dsp Inr c Some i
          by (cases y) (auto simp: identified_body_def)
        show ?thesis
          using resolve_instructions_effect(1) [OF i]
            resolve_instructions_effect(2,3) [OF i, of p] a3 st xy
          by auto
      qed
    qed
  qed
  show "chain (trace st') = chain (trace st)"
    using all by simp
  show "x = Inr (Some p) \<Longrightarrow> projectCache st' = (projectCache st)(''barcode_'' @ b \<mapsto> p)"
    using all by simp
  show "x = Inr (Some p) \<Longrightarrow>
           \<exists>t st0 u. p = barcode_project b t (fst (generateInstructionsFromPDF e st0 t u))"
    using all by simp
qed

lemma resolve_identified_effect:
  assumes "resolve_identified e st v b r s = (res, st')"
  shows "chain (trace st') = chain (trace st)"
    and "res = Some p \<Longrightarrow> projectCache st' = (projectCache st)(''barcode_'' @ b \<mapsto> p)"
    and "res = Some p \<Longrightarrow>
           \<exists>t st0 u. p = barcode_project b t (fst (generateInstructionsFromPDF e st0 t u))"
proof -
  obtain x st1 where body: "identified_body e st v b r s = (x, st1)"
    by (cases "identified_body e st v b r s")
  have c: "chain (trace st') = chain (trace st1)"
    using assms body
    by (cases x) (auto simp: resolve_identified_def catch_null_def chain_def)
  have s: "res = Some p \<longrightarrow> x = Inr (Some p) \<and> st' = st1"
    using assms body
    by (cases x) (auto simp: resolve_identified_def catch_null_def)
  show "chain (trace st') = chain (trace st)"
    using c identified_body_effect(1) [OF body] by simp
  show "res = Some p \<Longrightarrow> projectCache st' = (projectCache st)(''barcode_'' @ b \<mapsto> p)"
    using s identified_body_effect(2) [OF body, of p] by simp
  show "res = Some p \<Longrightarrow>
           \<exists>t st0 u. p = barcode_project b t (fst (generateInstructionsFromPDF e st0 t u))"
    using s identified_body_effect(3) [OF body, of p] by simp
qed

lemma resolve_exa_effect:
  assumes "resolve_with_exa e st b q = (res, st')"
  shows "projectCache st' = projectCache st"
    and "chain (trace st') = chain (trace st) @ (if EXA_API_KEY e then [ExaRequest q] else [])"
    and "res = Some p \<Longrightarrow> \<exists>x. p = exa_project b q x"
proof -
  obtain xs st1 where a: "searchWithExa e st q = (xs, st1)"
    by (cases "searchWithExa e st q")
  have a1: "projectCache st1 = projectCache st"
    "chain (trace st1) = chain (trace st) @ (if EXA_API_KEY e then [ExaRequest q] else [])"
    using cache_exa [of e st q] chain_exa [of e st q] a by simp_all
  have "st' = st1"
    using assms a by (auto simp: resolve_with_exa_def split: option.splits list.splits)
  then show "projectCache st' = projectCache st"
    and "chain (trace st') = chain (trace st) @ (if EXA_API_KEY e then [ExaRequest q] else [])"
    using a1 by simp_all
  show "res = Some p \<Longrightarrow> \<exists>x. p = exa_project b q x"
    using assms a by (auto simp: resolve_with_exa_def split: option.splits list.splits)
qed

text \<open>The shape of a run that misses the cache.\<close>

lemma pipeline_miss:
  assumes "projectCache st (''barcode_'' @ b) = None"
  shows "(\<exists>st1. identifyProductFromBarcode e st b = (None, st1)
            \<and> processVoiceCommandWithAI e st v b s = (None, st1))
       \<or> (\<exists>q st1 r0 st2 r st3.
            identifyProductFromBarcode e st b = (Some q, st1)
            \<and> searchWithGoogle e st1 q = (r0, st2)
            \<and> (if \<not> has_items r0 then try_fallbacks e st2 (fallbackQueries b) r0 else (r0, st2))
                = (r, st3)
            \<and> projectCache st3 = projectCache st
            \<and> processVoiceCommandWithAI e st v b s =
                (if \<not> has_items r then resolve_with_exa e st3 b q
                 else resolve_identified e st3 v b r s))"
proof -
  obtain oq st1 where a: "identifyProductFromBarcode e st b = (oq, st1)"
    by (cases "identifyProductFromBarcode e st b")
  show ?thesis
  proof (cases oq)
    case None
    with a assms show ?thesis
      by (simp add: processVoiceCommandWithAI_def)
  next
    case (Some q)
    obtain r0 st2 where g: "searchWithGoogle e st1 q = (r0, st2)"
      by (cases "searchWithGoogle e st1 q")
    obtain r st3 where f:
      "(if \<not> has_items r0 then try_fallbacks e st2 (fallbackQueries b) r0 else (r0, st2)) = (r, st3)"
      by (cases "if \<not> has_items r0 then try_fallbacks e st2 (fallbackQueries b) r0 else (r0, st2)")
    have c1: "projectCache st1 = projectCache st"
      using cache_identify [of e st b] a by simp
    have c2: "projectCache st2 = projectCache st"
      using google_effect [OF g] c1 by simp
    have c3: "projectCache st3 = projectCache st"
      using f c2 by (auto split: if_splits dest: cache_fallbacks)
    have "processVoiceCommandWithAI e st v b s =
                (if \<not> has_items r then resolve_with_exa e st3 b q
                 else resolve_identified e st3 v b r s)"
      using assms a Some g f by (simp add: processVoiceCommandWithAI_def)
    with a Some g f c3 show ?thesis by blast
  qed
qed

lemma pipeline_hit:
  "projectCache st (''barcode_'' @ b) = Some c \<Longrightarrow>
     processVoiceCommandWithAI e st v b s = (Some c, st)"
  by (simp add: processVoiceCommandWithAI_def)

section \<open>Resolution cache\<close>

text \<open>
  C1, amended: a call that finds a cache entry for the barcode returns that project at
  once, with no effect and the state unchanged. A resolution that went through title
  identification (a manual was found, or the generic fallback was used) stores the project
  it returns, so every later call for the barcode, under any environment, returns the
  same project without running the pipeline again. The only resolution that returns a
  project without storing it is the one built from the first Exa result.
\<close>

theorem C1_cached_resolution:
  "(projectCache st (''barcode_'' @ b) = Some c \<longrightarrow>
      processVoiceCommandWithAI e st v b s = (Some c, st))
   \<and> (resolve_identified e st v b r s = (Some p, st') \<longrightarrow>
        projectCache st' (''barcode_'' @ b) = Some p)
   \<and> (processVoiceCommandWithAI e st v b s = (Some p, st') \<longrightarrow>
        (projectCache st' (''barcode_'' @ b) = Some p
           \<and> processVoiceCommandWithAI e2 st' v2 b s2 = (Some p, st'))
        \<or> (projectCache st' (''barcode_'' @ b) = None \<and> (\<exists>q x. p = exa_project b q x)))"
proof (intro conjI impI)
  assume "projectCache st (''barcode_'' @ b) = Some c"
  then show "processVoiceCommandWithAI e st v b s = (Some c, st)"
    by (rule pipeline_hit)
next
  assume "resolve_identified e st v b r s = (Some p, st')"
  from resolve_identified_effect(2) [OF this, of p]
  show "projectCache st' (''barcode_'' @ b) = Some p" by simp
next
  assume run: "processVoiceCommandWithAI e st v b s = (Some p, st')"
  show "(projectCache st' (''barcode_'' @ b) = Some p
           \<and> processVoiceCommandWithAI e2 st' v2 b s2 = (Some p, st'))
        \<or> (projectCache st' (''barcode_'' @ b) = None \<and> (\<exists>q x. p = exa_project b q x))"
  proof (cases "projectCache st (''barcode_'' @ b)")
    case (Some c)
    with run pipeline_hit [of st b c e v s] have "p = c" "st' = st" by simp_all
    with Some pipeline_hit [of st b c e2 v2 s2] show ?thesis by simp
  next
    case None
    from pipeline_miss [OF None, of e v s] run
    obtain q st1 r0 st2 r3 st3 where m:
      "projectCache st3 = projectCache st"
      "processVoiceCommandWithAI e st v b s =
         (if \<not> has_items r3 then resolve_with_exa e st3 b q
          else resolve_identified e st3 v b r3 s)"
      by auto
    show ?thesis
    proof (cases "has_items r3")
      case True
      with m run have "resolve_identified e st3 v b r3 s = (Some p, st')" by simp
      from resolve_identified_effect(2) [OF this, of p]
      have "projectCache st' (''barcode_'' @ b) = Some p" by simp
      with pipeline_hit [of st' b p e2 v2 s2] show ?thesis by simp
    next
      case False
      with m run have x: "resolve_with_exa e st3 b q = (Some p, st')" by simp
      from resolve_exa_effect(1) [OF x] resolve_exa_effect(3) [OF x, of p] m(1) None
      show ?thesis by auto
    qed
  qed
qed


section \<open>Sample runs\<close>

lemmas pipeline_defs =
  processVoiceCommandWithAI_def identifyProductFromBarcode_def searchWithGoogle_def
  has_items_def transformedResponse_def fallbackQueries_def resolve_with_exa_def
  searchWithExa_def emit_def tick_def trim_def space1_def space2_def space3_def
  resolve_identified_def identified_body_def catch_null_def show_text_def
  analyzeProductFromGoogleResults_def generateInstructionQuery_def resolve_instructions_def
  searchGoogleForPDFs_def pdfQuery_def findFirstValidPDF_def generateInstructionsFromPDF_def
  uploadProjectToS3_def cache_set_def not_noise_def to_item_def to_pdf_item_def link_is_pdf_def
  isPDF_def lower_char_def endsWith_def candidate_def match_array_def
  generateFallbackInstructions_def isLego_def isFurniture_def Let_def
  identificationText_def finalText_def

lemmas sample_defs =
  fresh_def env_offline_def env_online_def env_exa_only_def env_no_query_def B13_def
  organic_manual_def json_one_step_def quoted_def after_exa_def

lemma run_exa_only:
  "processVoiceCommandWithAI env_exa_only fresh ''start'' B13 False =
     (Some (exa_project B13 (B13 @ '' product'') acme_hit), after_exa)"
  by (simp add: pipeline_defs sample_defs)

lemma rerun_exa_only:
  "processVoiceCommandWithAI env_exa_only after_exa ''start'' B13 False =
     (Some (exa_project B13 (B13 @ '' product'') acme_hit),
      after_exa\<lparr>trace := trace after_exa @ trace after_exa\<rparr>)"
  by (simp add: pipeline_defs sample_defs)

lemma rerun_offline:
  "processVoiceCommandWithAI env_offline after_exa ''start'' B13 False = (None, after_exa)"
  by (simp add: pipeline_defs sample_defs)

lemma run_online_result:
  "fst (processVoiceCommandWithAI env_online fresh ''start'' B13 True) =
     Some (barcode_project B13 ''Acme Widget'' parsed_one_step)"
  by (simp add: pipeline_defs sample_defs)

lemma run_online_trace:
  "trace (snd (processVoiceCommandWithAI env_online fresh ''start'' B13 True)) =
     [CerebrasRequest (IdentifyPrompt B13), SerpApiRequest (B13 @ '' product'') 5,
      CerebrasRequest (AnalyzePrompt B13 [to_item organic_manual]),
      ShowTextWall [''PRODUCT IDENTIFIED'', [], ''Acme Widget'', [], ''Barcode: '' @ B13, [],
                    ''Processing instructions...''],
      CerebrasRequest (InstructionPrompt ''Acme Widget''),
      SerpApiRequest ''Acme Widget assembly instructions filetype:pdf'' 10,
      AnthropicRequest ''Acme Widget'' ''https://acme.example/widget.pdf'',
      S3Put (barcode_project B13 ''Acme Widget'' parsed_one_step) B13
        (Some ''https://acme.example/widget.pdf''),
      ShowTextWall [''INSTRUCTIONS FOUND'', [], ''Acme Widget'', [], ''Acme Widget Manual'', [],
                    ''Ready to guide you!'']]"
  by (simp add: pipeline_defs sample_defs)



text \<open>
  C1, as stated: after any successful resolution a later call returns the cached project.
  It fails on the degraded path: the project built from the Exa result is returned but
  not stored, so a second call runs the whole chain again, and returns nothing when the
  providers have gone away in between.
\<close>

theorem C1_counterexample:
  "processVoiceCommandWithAI env_exa_only fresh ''start'' B13 False =
     (Some (exa_project B13 (B13 @ '' product'') acme_hit), after_exa)
   \<and> projectCache after_exa (''barcode_'' @ B13) = None
   \<and> processVoiceCommandWithAI env_offline after_exa ''start'' B13 False = (None, after_exa)
   \<and> trace (snd (processVoiceCommandWithAI env_exa_only after_exa ''start'' B13 False)) =
       trace after_exa @ trace after_exa"
  using run_exa_only rerun_exa_only rerun_offline by (simp add: after_exa_def)

theorem C1_cached_resolution_witness:
  "fst (processVoiceCommandWithAI env_online fresh ''start'' B13 True) =
     Some (barcode_project B13 ''Acme Widget'' parsed_one_step)
   \<and> processVoiceCommandWithAI env_offline
        (snd (processVoiceCommandWithAI env_online fresh ''start'' B13 True)) ''next'' B13 False =
      (Some (barcode_project B13 ''Acme Widget'' parsed_one_step),
       snd (processVoiceCommandWithAI env_online fresh ''start'' B13 True))"
proof -
  let ?p = "barcode_project B13 ''Acme Widget'' parsed_one_step"
  let ?r = "processVoiceCommandWithAI env_online fresh ''start'' B13 True"
  have run: "?r = (Some ?p, snd ?r)"
    using run_online_result by (cases ?r) simp
  have notexa: "\<not> (\<exists>q x. ?p = exa_project B13 q x)"
    by (simp add: barcode_project_def exa_project_def parsed_one_step_def)
  note c = C1_cached_resolution [of fresh B13 ?p env_online "''start''" True None ?p "snd ?r"
      env_offline "''next''" False]
  note d = c [THEN conjunct2, THEN conjunct2, THEN mp, OF run]
  from d notexa have "processVoiceCommandWithAI env_offline (snd ?r) ''next'' B13 False =
      (Some ?p, snd ?r)"
    by blast
  with run_online_result show ?thesis
    by blast
qed

section \<open>Step numbering\<close>














section \<open>After the title is known\<close>











lemma llm_fallbacks:
  "try_fallbacks e st qs cur = (r, st') \<Longrightarrow>
     filter llm_event (trace st') = filter llm_event (trace st)"
proof (induction qs arbitrary: st cur)
  case Nil
  then show ?case by simp
next
  case (Cons q qs)
  obtain r1 st1 where g: "searchWithGoogle e (emit (TryFallback q) st) q = (r1, st1)"
    by (cases "searchWithGoogle e (emit (TryFallback q) st) q")
  have c: "filter llm_event (trace st1) = filter llm_event (trace st)"
    using trace_google [of e "emit (TryFallback q) st" q] g by simp
  show ?case
  proof (cases "has_items r1")
    case True
    with Cons.prems g c show ?thesis by simp
  next
    case False
    with Cons.prems g have "try_fallbacks e (emit (Delay 500) st1) qs r1 = (r, st')"
      by simp
    from Cons.IH [OF this] c show ?thesis by simp
  qed
qed

lemma fallbacks_all_empty:
  "(\<And>st0 x. x \<in> set qs \<Longrightarrow> \<not> has_items (fst (searchWithGoogle e st0 x))) \<Longrightarrow>
   \<not> has_items cur \<Longrightarrow> \<not> has_items (fst (try_fallbacks e st qs cur))"
proof (induction qs arbitrary: st cur)
  case Nil
  then show ?case by simp
next
  case (Cons q qs)
  obtain r1 st1 where g: "searchWithGoogle e (emit (TryFallback q) st) q = (r1, st1)"
    by (cases "searchWithGoogle e (emit (TryFallback q) st) q")
  have e1: "\<not> has_items r1"
    using Cons.prems(1) [of q "emit (TryFallback q) st"] g by simp
  have "\<not> has_items (fst (try_fallbacks e (emit (Delay 500) st1) qs r1))"
    using Cons.IH [of r1 "emit (Delay 500) st1"] Cons.prems(1) e1 by simp
  with g e1 show ?case by simp
qed

section \<open>The degraded path\<close>

text \<open>
  C4: on a cache miss with a product-identification query, if the primary search has no
  items for that query and for every fallback query, and Exa returns at least one result,
  the pipeline returns the 3-step project built from Exa's first result, named by that
  result's title or, when the title is absent or empty, by the query; the only request to
  a generation provider in the run is the one that composed the query.
\<close>

theorem C4_degraded_path:
  assumes miss: "projectCache st (''barcode_'' @ b) = None"
    and ident: "identifyProductFromBarcode e st b = (Some q, st1)"
    and primary: "\<And>st0 x. x \<in> set (q # fallbackQueries b) \<Longrightarrow>
                    \<not> has_items (fst (searchWithGoogle e st0 x))"
    and secondary: "\<And>st0. fst (searchWithExa e st0 q) = Some (hit # others)"
  shows "(\<exists>st'. processVoiceCommandWithAI e st v b s = (Some (exa_project b q hit), st')
           \<and> filter llm_event (trace st') =
               filter llm_event (trace st) @ [CerebrasRequest (IdentifyPrompt b)])
    \<and> length (steps (exa_project b q hit)) = 3
    \<and> totalSteps (exa_project b q hit) = 3
    \<and> name (exa_project b q hit) = or_else (exa_title hit) q
    \<and> (exa_title hit = None \<longrightarrow> name (exa_project b q hit) = q)"
proof -
  from pipeline_miss [OF miss, of e v s] ident
  obtain r0 st2 r st3 where m:
    "searchWithGoogle e st1 q = (r0, st2)"
    "(if \<not> has_items r0 then try_fallbacks e st2 (fallbackQueries b) r0 else (r0, st2)) = (r, st3)"
    "processVoiceCommandWithAI e st v b s =
       (if \<not> has_items r then resolve_with_exa e st3 b q else resolve_identified e st3 v b r s)"
    by auto
  have e0: "\<not> has_items r0"
    using primary [of q st1] m(1) by simp
  then have f: "try_fallbacks e st2 (fallbackQueries b) r0 = (r, st3)"
    using m(2) by simp
  have e1: "\<not> has_items r"
    using fallbacks_all_empty [of "fallbackQueries b" e r0 st2] primary e0 f by simp
  obtain xs st4 where x: "searchWithExa e st3 q = (xs, st4)"
    by (cases "searchWithExa e st3 q")
  then have xs: "xs = Some (hit # others)"
    using secondary [of st3] by simp
  have run: "processVoiceCommandWithAI e st v b s = (Some (exa_project b q hit), st4)"
    using m(3) e1 x xs by (simp add: resolve_with_exa_def)
  have key: "CEREBRAS_API_KEY e"
    using ident by (auto simp: identifyProductFromBarcode_def split: if_splits)
  have t1: "filter llm_event (trace st1) =
      filter llm_event (trace st) @ [CerebrasRequest (IdentifyPrompt b)]"
    using trace_identify [of e st b] ident key by simp
  have t2: "filter llm_event (trace st2) = filter llm_event (trace st1)"
    using trace_google [of e st1 q] m(1) by simp
  have t3: "filter llm_event (trace st3) = filter llm_event (trace st2)"
    using llm_fallbacks [OF f] .
  have t4: "filter llm_event (trace st4) = filter llm_event (trace st3)"
    using trace_exa [of e st3 q] x by simp
  have first: "\<exists>st'. processVoiceCommandWithAI e st v b s = (Some (exa_project b q hit), st')
           \<and> filter llm_event (trace st') =
               filter llm_event (trace st) @ [CerebrasRequest (IdentifyPrompt b)]"
    using run t1 t2 t3 t4 by simp
  have rest: "length (steps (exa_project b q hit)) = 3
    \<and> totalSteps (exa_project b q hit) = 3
    \<and> name (exa_project b q hit) = or_else (exa_title hit) q
    \<and> (exa_title hit = None \<longrightarrow> name (exa_project b q hit) = q)"
    by (simp add: exa_project_def)
  from first rest show ?thesis by blast
qed

theorem C4_degraded_path_witness:
  "projectCache fresh (''barcode_'' @ B13) = None
   \<and> identifyProductFromBarcode env_exa_only fresh B13 = (Some (B13 @ '' product''), identified)
   \<and> (\<forall>st0 x. \<not> has_items (fst (searchWithGoogle env_exa_only st0 x)))
   \<and> (\<forall>st0. fst (searchWithExa env_exa_only st0 (B13 @ '' product'')) = Some [acme_hit])
   \<and> fst (processVoiceCommandWithAI env_exa_only fresh ''start'' B13 False) =
        Some (exa_project B13 (B13 @ '' product'') acme_hit)
   \<and> name (exa_project B13 (B13 @ '' product'') acme_hit) = ''Acme Widget Manual''
   \<and> length (steps (exa_project B13 (B13 @ '' product'') acme_hit)) = 3"
proof -
  have h1: "projectCache fresh (''barcode_'' @ B13) = None"
    by (simp add: fresh_def)
  have h2: "identifyProductFromBarcode env_exa_only fresh B13 = (Some (B13 @ '' product''), identified)"
    by (simp add: pipeline_defs sample_defs identified_def)
  have h3: "\<not> has_items (fst (searchWithGoogle env_exa_only st0 x))" for st0 x
    by (simp add: searchWithGoogle_def has_items_def transformedResponse_def env_exa_only_def
        env_online_def)
  have h4: "fst (searchWithExa env_exa_only st0 (B13 @ '' product'')) = Some (acme_hit # [])" for st0
    by (simp add: searchWithExa_def env_exa_only_def env_online_def)
  note t = C4_degraded_path [of fresh B13 env_exa_only "B13 @ '' product''" identified acme_hit "[]"
      "''start''" False, OF h1 h2 h3 h4]
  have n: "name (exa_project B13 (B13 @ '' product'') acme_hit) = ''Acme Widget Manual''"
    using t by (simp add: acme_hit_def)
  from t have r: "fst (processVoiceCommandWithAI env_exa_only fresh ''start'' B13 False) =
        Some (exa_project B13 (B13 @ '' product'') acme_hit)"
    by auto
  from t have l: "length (steps (exa_project B13 (B13 @ '' product'') acme_hit)) = 3"
    by blast
  show ?thesis
    using h1 h2 h3 h4 n r l by simp
qed


section \<open>Order of the search fallbacks\<close>

text \<open>
  C9, as stated: the fallback queries are, in order, the raw token, UPC token, barcode
  token, token. It fails on the first of them: the code asks for the token followed by
  the word product.
\<close>

theorem C9_counterexample:
  "processVoiceCommandWithAI env_exa_only fresh ''start'' B13 False =
     (Some (exa_project B13 (B13 @ '' product'') acme_hit), after_exa)
   \<and> attempted (trace after_exa) =
       [''0123456789012 product'', ''UPC 0123456789012'', ''barcode 0123456789012'',
        ''0123456789012'']
   \<and> attempted (trace after_exa) \<noteq>
       [''0123456789012'', ''UPC 0123456789012'', ''barcode 0123456789012'', ''0123456789012'']"
  using run_exa_only by (simp add: after_exa_def B13_def)

text \<open>
  The loop stops at the first pass whose search has items and returns that pass's result
  and state; when every pass came back empty it ends in the state after the last pause.
\<close>

lemma nth_attempt_0 [simp]: "nth_attempt e st (q # qs) 0 = attempt e st q"
  by (simp add: nth_attempt_def)

lemma nth_attempt_Suc [simp]:
  "nth_attempt e st (q # qs) (Suc j) =
     nth_attempt e (emit (Delay 500) (snd (attempt e st q))) qs j"
  by (simp add: nth_attempt_def)

lemma fallbacks_first:
  "try_fallbacks e st qs cur = (r, st') \<Longrightarrow>
     (\<exists>k < length qs. (\<forall>j < k. \<not> has_items (fst (nth_attempt e st qs j)))
         \<and> has_items (fst (nth_attempt e st qs k)) \<and> (r, st') = nth_attempt e st qs k)
     \<or> ((\<forall>j < length qs. \<not> has_items (fst (nth_attempt e st qs j)))
         \<and> st' = after_empty e st qs \<and> (qs = [] \<or> \<not> has_items r))"
proof (induction qs arbitrary: st cur)
  case Nil
  then show ?case by simp
next
  case (Cons q qs)
  obtain r1 st1 where g: "attempt e st q = (r1, st1)"
    by (cases "attempt e st q")
  show ?case
  proof (cases "has_items r1")
    case True
    with Cons.prems g have "(r, st') = nth_attempt e st (q # qs) 0"
      by (simp add: attempt_def)
    moreover have "has_items (fst (nth_attempt e st (q # qs) 0))"
      using True g by simp
    ultimately show ?thesis
      by (intro disjI1 exI [of _ 0]) simp
  next
    case False
    with Cons.prems g have rec: "try_fallbacks e (emit (Delay 500) st1) qs r1 = (r, st')"
      by (simp add: attempt_def)
    have st1: "emit (Delay 500) st1 = emit (Delay 500) (snd (attempt e st q))"
      using g by simp
    have first: "\<not> has_items (fst (nth_attempt e st (q # qs) 0))"
      using False g by simp
    from Cons.IH [OF rec] show ?thesis
    proof
      assume "\<exists>k < length qs.
          (\<forall>j < k. \<not> has_items (fst (nth_attempt e (emit (Delay 500) st1) qs j)))
          \<and> has_items (fst (nth_attempt e (emit (Delay 500) st1) qs k))
          \<and> (r, st') = nth_attempt e (emit (Delay 500) st1) qs k"
      then obtain k where k: "k < length qs"
        "\<forall>j < k. \<not> has_items (fst (nth_attempt e (emit (Delay 500) st1) qs j))"
        "has_items (fst (nth_attempt e (emit (Delay 500) st1) qs k))"
        "(r, st') = nth_attempt e (emit (Delay 500) st1) qs k"
        by blast
      have before: "\<forall>j < Suc k. \<not> has_items (fst (nth_attempt e st (q # qs) j))"
      proof (intro allI impI)
        fix j
        assume "j < Suc k"
        then show "\<not> has_items (fst (nth_attempt e st (q # qs) j))"
          using first k(2) st1 by (cases j) simp_all
      qed
      have "Suc k < length (q # qs)"
        using k(1) by simp
      moreover have "has_items (fst (nth_attempt e st (q # qs) (Suc k)))"
        using k(3) st1 by simp
      moreover have "(r, st') = nth_attempt e st (q # qs) (Suc k)"
        using k(4) st1 by simp
      ultimately show ?thesis
        using before by blast
    next
      assume a: "(\<forall>j < length qs. \<not> has_items (fst (nth_attempt e (emit (Delay 500) st1) qs j)))
          \<and> st' = after_empty e (emit (Delay 500) st1) qs \<and> (qs = [] \<or> \<not> has_items r)"
      have every: "\<forall>j < length (q # qs). \<not> has_items (fst (nth_attempt e st (q # qs) j))"
      proof (intro allI impI)
        fix j
        assume "j < length (q # qs)"
        then show "\<not> has_items (fst (nth_attempt e st (q # qs) j))"
          using first a st1 by (cases j) simp_all
      qed
      have "r = r1" if "qs = []"
        using rec that by simp
      then have "\<not> has_items r"
        using a False by blast
      moreover have "st' = after_empty e st (q # qs)"
        using a st1 by simp
      ultimately show ?thesis
        using every by blast
    qed
  qed
qed

lemma chain_after_empty:
  "chain (trace (after_empty e st qs)) = chain (trace st) @ empty_attempts qs"
proof (induction qs arbitrary: st)
  case Nil
  then show ?case by (simp add: empty_attempts_def)
next
  case (Cons q qs)
  have "chain (trace (emit (Delay 500) (snd (attempt e st q)))) =
      chain (trace st) @ [TryFallback q, Delay 500]"
    using chain_google [of e "emit (TryFallback q) st" q] by (simp add: attempt_def chain_def)
  with Cons.IH [of "emit (Delay 500) (snd (attempt e st q))"] show ?case
    by (simp add: empty_attempts_def)
qed

lemma chain_nth_attempt:
  "chain (trace (snd (nth_attempt e st qs k))) =
     chain (trace st) @ empty_attempts (take k qs) @ [TryFallback (qs ! k)]"
  using chain_google [of e "emit (TryFallback (qs ! k)) (after_empty e st (take k qs))" "qs ! k"]
    chain_after_empty [of e st "take k qs"]
  by (simp add: nth_attempt_def attempt_def chain_def)

text \<open>
  C9, amended: when the primary search for the product-identification query yields no
  items, the pipeline tries the fallback queries token product, UPC token, barcode token,
  token in this order, pausing 500 ms after each attempt that came back empty. It stops at
  the first attempt that has items: every attempt before it came back empty, no later
  query and no Exa request is issued, and the resolution goes on from that attempt's
  result. Only after all four came back empty is Exa asked, with the
  product-identification query, and the answer of the resolution is then the one of the
  Exa path.
\<close>

theorem C9_fallback_order:
  assumes miss: "projectCache st (''barcode_'' @ b) = None"
    and ident: "identifyProductFromBarcode e st b = (Some q, st1)"
    and empty: "searchWithGoogle e st1 q = (r0, st2) \<and> \<not> has_items r0"
    and run: "processVoiceCommandWithAI e st v b s = (res, st')"
  shows "fallbackQueries b = [b @ '' product'', ''UPC '' @ b, ''barcode '' @ b, b]
    \<and> ((\<exists>k < 4. (\<forall>j < k. \<not> has_items (fst (nth_attempt e st2 (fallbackQueries b) j)))
            \<and> has_items (fst (nth_attempt e st2 (fallbackQueries b) k))
            \<and> (res, st') =
                resolve_identified e (snd (nth_attempt e st2 (fallbackQueries b) k)) v b
                  (fst (nth_attempt e st2 (fallbackQueries b) k)) s
            \<and> chain (trace st') =
                chain (trace st) @ empty_attempts (take k (fallbackQueries b))
                  @ [TryFallback (fallbackQueries b ! k)])
       \<or> ((\<forall>j < 4. \<not> has_items (fst (nth_attempt e st2 (fallbackQueries b) j)))
            \<and> (res, st') = resolve_with_exa e (after_empty e st2 (fallbackQueries b)) b q
            \<and> chain (trace st') =
                chain (trace st) @ empty_attempts (fallbackQueries b)
                  @ (if EXA_API_KEY e then [ExaRequest q] else [])))"
proof -
  from pipeline_miss [OF miss, of e v s] ident empty
  obtain r st3 where m:
    "try_fallbacks e st2 (fallbackQueries b) r0 = (r, st3)"
    "processVoiceCommandWithAI e st v b s =
       (if \<not> has_items r then resolve_with_exa e st3 b q else resolve_identified e st3 v b r s)"
    by auto
  have c1: "chain (trace st1) = chain (trace st)"
    using chain_identify [of e st b] ident by simp
  have c2: "chain (trace st2) = chain (trace st)"
    using google_effect [of e st1 q r0 st2] empty c1 by simp
  have len: "length (fallbackQueries b) = 4"
    by (simp add: fallbackQueries_def)
  have order: "fallbackQueries b = [b @ '' product'', ''UPC '' @ b, ''barcode '' @ b, b]"
    by (simp add: fallbackQueries_def)
  have ne: "fallbackQueries b \<noteq> []"
    by (simp add: fallbackQueries_def)
  from fallbacks_first [OF m(1)]
  have cases: "(\<exists>k < 4. (\<forall>j < k. \<not> has_items (fst (nth_attempt e st2 (fallbackQueries b) j)))
            \<and> has_items (fst (nth_attempt e st2 (fallbackQueries b) k))
            \<and> (res, st') =
                resolve_identified e (snd (nth_attempt e st2 (fallbackQueries b) k)) v b
                  (fst (nth_attempt e st2 (fallbackQueries b) k)) s
            \<and> chain (trace st') =
                chain (trace st) @ empty_attempts (take k (fallbackQueries b))
                  @ [TryFallback (fallbackQueries b ! k)])
       \<or> ((\<forall>j < 4. \<not> has_items (fst (nth_attempt e st2 (fallbackQueries b) j)))
            \<and> (res, st') = resolve_with_exa e (after_empty e st2 (fallbackQueries b)) b q
            \<and> chain (trace st') =
                chain (trace st) @ empty_attempts (fallbackQueries b)
                  @ (if EXA_API_KEY e then [ExaRequest q] else []))"
  proof
    assume "\<exists>k < length (fallbackQueries b).
        (\<forall>j < k. \<not> has_items (fst (nth_attempt e st2 (fallbackQueries b) j)))
        \<and> has_items (fst (nth_attempt e st2 (fallbackQueries b) k))
        \<and> (r, st3) = nth_attempt e st2 (fallbackQueries b) k"
    then obtain k where k: "k < 4"
      "\<forall>j < k. \<not> has_items (fst (nth_attempt e st2 (fallbackQueries b) j))"
      "has_items (fst (nth_attempt e st2 (fallbackQueries b) k))"
      "(r, st3) = nth_attempt e st2 (fallbackQueries b) k"
      using len by auto
    have r: "r = fst (nth_attempt e st2 (fallbackQueries b) k)"
      and st3: "st3 = snd (nth_attempt e st2 (fallbackQueries b) k)"
      using k(4) by (simp_all add: prod_eq_iff)
    have ri: "resolve_identified e st3 v b r s = (res, st')"
      using m(2) run k(3) r by simp
    have "chain (trace st') = chain (trace st3)"
      using resolve_identified_effect(1) [OF ri] .
    then have ch: "chain (trace st') =
        chain (trace st) @ empty_attempts (take k (fallbackQueries b))
          @ [TryFallback (fallbackQueries b ! k)]"
      using chain_nth_attempt [of e st2 "fallbackQueries b" k] st3 c2 by simp
    have "(res, st') =
        resolve_identified e (snd (nth_attempt e st2 (fallbackQueries b) k)) v b
          (fst (nth_attempt e st2 (fallbackQueries b) k)) s"
      using ri r st3 by simp
    with k(1,2,3) ch show ?thesis
      by blast
  next
    assume a: "(\<forall>j < length (fallbackQueries b).
          \<not> has_items (fst (nth_attempt e st2 (fallbackQueries b) j)))
        \<and> st3 = after_empty e st2 (fallbackQueries b)
        \<and> (fallbackQueries b = [] \<or> \<not> has_items r)"
    then have nr: "\<not> has_items r"
      using ne by simp
    have rx: "resolve_with_exa e st3 b q = (res, st')"
      using m(2) run nr by simp
    have "chain (trace st') =
        chain (trace st3) @ (if EXA_API_KEY e then [ExaRequest q] else [])"
      using resolve_exa_effect(2) [OF rx] .
    then have ch: "chain (trace st') =
        chain (trace st) @ empty_attempts (fallbackQueries b)
          @ (if EXA_API_KEY e then [ExaRequest q] else [])"
      using chain_after_empty [of e st2 "fallbackQueries b"] a c2 by simp
    have "(res, st') = resolve_with_exa e (after_empty e st2 (fallbackQueries b)) b q"
      using rx a by simp
    moreover have "\<forall>j < 4. \<not> has_items (fst (nth_attempt e st2 (fallbackQueries b) j))"
      using a len by simp
    ultimately show ?thesis
      using ch by blast
  qed
  from order cases show ?thesis
    by (rule conjI)
qed

lemma run_third:
  "chain (trace (snd (processVoiceCommandWithAI env_third fresh ''start'' B13 False))) =
     [TryFallback ''0123456789012 product'', Delay 500,
      TryFallback ''UPC 0123456789012'', Delay 500,
      TryFallback ''barcode 0123456789012'']"
  by (simp add: pipeline_defs sample_defs env_third_def chain_def)

lemma third_attempts:
  "\<not> has_items (fst (nth_attempt env_third searched (fallbackQueries B13) 0))"
  "\<not> has_items (fst (nth_attempt env_third searched (fallbackQueries B13) 1))"
  "has_items (fst (nth_attempt env_third searched (fallbackQueries B13) 2))"
  by (simp_all add: pipeline_defs sample_defs env_third_def searched_def nth_attempt_def
        attempt_def eval_nat_numeral)

theorem C9_fallback_order_witness:
  "projectCache fresh (''barcode_'' @ B13) = None
   \<and> identifyProductFromBarcode env_third fresh B13 = (Some (B13 @ '' product''), identified)
   \<and> searchWithGoogle env_third identified (B13 @ '' product'') =
       (Some \<lparr>totalResults = 0, items = []\<rparr>, searched)
   \<and> \<not> has_items (Some \<lparr>totalResults = 0, items = []\<rparr>)
   \<and> \<not> has_items (fst (nth_attempt env_third searched (fallbackQueries B13) 0))
   \<and> \<not> has_items (fst (nth_attempt env_third searched (fallbackQueries B13) 1))
   \<and> has_items (fst (nth_attempt env_third searched (fallbackQueries B13) 2))
   \<and> processVoiceCommandWithAI env_third fresh ''start'' B13 False =
       resolve_identified env_third (snd (nth_attempt env_third searched (fallbackQueries B13) 2))
         ''start'' B13 (fst (nth_attempt env_third searched (fallbackQueries B13) 2)) False
   \<and> chain (trace (snd (processVoiceCommandWithAI env_third fresh ''start'' B13 False))) =
        [TryFallback ''0123456789012 product'', Delay 500,
         TryFallback ''UPC 0123456789012'', Delay 500,
         TryFallback ''barcode 0123456789012'']"
proof -
  have h1: "projectCache fresh (''barcode_'' @ B13) = None"
    by (simp add: fresh_def)
  have h2: "identifyProductFromBarcode env_third fresh B13 = (Some (B13 @ '' product''), identified)"
    by (simp add: pipeline_defs sample_defs env_third_def identified_def)
  have h3: "searchWithGoogle env_third identified (B13 @ '' product'') =
        (Some \<lparr>totalResults = 0, items = []\<rparr>, searched)
      \<and> \<not> has_items (Some \<lparr>totalResults = 0, items = []\<rparr>)"
    by (simp add: pipeline_defs sample_defs env_third_def identified_def searched_def)
  have h4: "processVoiceCommandWithAI env_third fresh ''start'' B13 False =
      (fst (processVoiceCommandWithAI env_third fresh ''start'' B13 False),
       snd (processVoiceCommandWithAI env_third fresh ''start'' B13 False))"
    by simp
  note t = C9_fallback_order [OF h1 h2 h3 h4, THEN conjunct2]
  have k: "k < 4 \<Longrightarrow> (\<forall>j < k. \<not> has_items (fst (nth_attempt env_third searched (fallbackQueries B13) j)))
      \<Longrightarrow> has_items (fst (nth_attempt env_third searched (fallbackQueries B13) k)) \<Longrightarrow> k = 2" for k
    using third_attempts
    by (metis One_nat_def less_2_cases_iff linorder_neqE_nat numeral_2_eq_2)
  have at: "processVoiceCommandWithAI env_third fresh ''start'' B13 False =
       resolve_identified env_third (snd (nth_attempt env_third searched (fallbackQueries B13) 2))
         ''start'' B13 (fst (nth_attempt env_third searched (fallbackQueries B13) 2)) False"
    using t third_attempts(3) k by (auto simp: prod_eq_iff)
  show ?thesis
    using h1 h2 h3 third_attempts at run_third by simp
qed
section \<open>Session navigation: the step index stays in range\<close>

lemma ok_display:
  "session_ok srv \<Longrightarrow> rendered_ok out \<Longrightarrow> session_ok (display out srv)"
  by (auto simp: session_ok_def in_range_def display_def split: option.splits)

lemma ok_show:
  "session_ok srv \<Longrightarrow> 0 \<le> i \<Longrightarrow> i = 0 \<or> i < totalSteps p \<Longrightarrow>
     session_ok (showInstructionStep srv p i)"
  by (auto simp: showInstructionStep_def intro!: ok_display)

lemma ok_reply:
  "0 \<le> i \<Longrightarrow> i = 0 \<or> i < totalSteps p \<Longrightarrow> rendered_ok (step_reply p i)"
  by (simp add: step_reply_def)

lemma ok_next: "session_ok srv \<Longrightarrow> session_ok (handleNextStep srv)"
  by (auto simp: handleNextStep_def session_ok_def in_range_def showInstructionStep_def
      display_def split: option.splits)

lemma ok_previous: "session_ok srv \<Longrightarrow> session_ok (handlePreviousStep srv)"
  by (auto simp: handlePreviousStep_def session_ok_def in_range_def showInstructionStep_def
      display_def split: option.splits)

lemma ok_new: "session_ok srv \<Longrightarrow> session_ok (handleNewProject srv now)"
  by (auto simp: handleNewProject_def session_ok_def in_range_def display_def)

lemma ok_select: "session_ok srv \<Longrightarrow> session_ok (handleProjectSelection srv now pid)"
  by (auto simp: handleProjectSelection_def session_ok_def in_range_def showInstructionStep_def
      display_def split: option.splits)

lemma in_rangeD:
  "session_ok srv \<Longrightarrow> currentProject (sess srv) = Some p \<Longrightarrow>
     0 \<le> currentStep (sess srv) \<and>
     (currentStep (sess srv) = 0 \<or> currentStep (sess srv) < totalSteps p)"
  by (simp add: session_ok_def in_range_def)

lemma ok_reset:
  "session_ok srv \<Longrightarrow> session_ok (srv\<lparr>sess := (sess srv)\<lparr>currentStep := 0\<rparr>\<rparr>)"
  by (auto simp: session_ok_def in_range_def split: option.splits)

lemma ok_navigate:
  assumes ok: "session_ok srv" and cp: "currentProject (sess srv) = Some p"
  shows "session_ok (navigate srv p c)"
proof -
  have rep: "session_ok (showInstructionStep srv p (currentStep (sess srv)))"
    using in_rangeD [OF ok cp] by (intro ok_show ok) simp_all
  have res: "session_ok (showInstructionStep (srv\<lparr>sess := (sess srv)\<lparr>currentStep := 0\<rparr>\<rparr>) p 0)"
    by (intro ok_show ok_reset ok) simp_all
  show ?thesis
    using ok_next [OF ok] ok_previous [OF ok] rep res ok
    by (simp add: navigate_def)
qed

lemma ok_process: "session_ok srv \<Longrightarrow> session_ok (processVoiceCommand srv now c)"
  by (auto simp: processVoiceCommand_def ok_select ok_navigate ok_new ok_display
      split: AppState.splits option.splits)

lemma ok_pending: "session_ok (srv\<lparr>pending := ps\<rparr>) = session_ok srv"
  by (simp add: session_ok_def in_range_def split: option.split)

lemma ok_barcode: "session_ok (srv\<lparr>CURRENT_BARCODE := b\<rparr>) = session_ok srv"
  by (simp add: session_ok_def in_range_def split: option.split)

lemma ok_voice: "session_ok srv \<Longrightarrow> session_ok (handleVoiceTranscription srv now f t)"
  by (auto simp: handleVoiceTranscription_def Let_def ok_process ok_pending split: option.splits)

lemma ok_barcode_settled: "session_ok srv \<Longrightarrow> session_ok (barcode_settled srv k b)"
  by (auto simp: barcode_settled_def updateCurrentBarcode_def Let_def ok_pending ok_barcode
      split: handler.splits option.splits)

lemma ok_available:
  "session_ok (srv\<lparr>sess := (sess srv)\<lparr>availableProjects := m, stepsGenerated := g\<rparr>\<rparr>) = session_ok srv"
  "session_ok (srv\<lparr>sess := (sess srv)\<lparr>availableProjects := m\<rparr>\<rparr>) = session_ok srv"
  by (simp_all add: session_ok_def in_range_def split: option.split)

lemma ok_resolution_settled: "session_ok srv \<Longrightarrow> session_ok (resolution_settled srv now k r)"
proof -
  assume ok: "session_ok srv"
  have a: "session_ok (srv\<lparr>pending := ps\<rparr>)" for ps
    using ok by (simp add: ok_pending)
  have b: "session_ok (handleProjectSelection
      ((srv\<lparr>pending := ps\<rparr>)\<lparr>sess := (sess (srv\<lparr>pending := ps\<rparr>))
           \<lparr>availableProjects := m, stepsGenerated := True\<rparr>\<rparr>) now pid)" for ps m pid
    by (rule ok_select) (use ok in \<open>auto simp: session_ok_def in_range_def split: option.splits\<close>)
  show ?thesis
    using ok a b
    by (auto simp: resolution_settled_def Let_def ok_process
        split: handler.splits option.splits)
qed

lemma ok_tool: "session_ok srv \<Longrightarrow> session_ok (onToolCall srv toolId)"
  by (auto simp: onToolCall_def session_ok_def in_range_def display_def step_reply_def
      split: option.splits)

lemma ok_s3: "session_ok srv \<Longrightarrow> session_ok (loadS3Data srv d)"
  by (simp add: loadS3Data_def ok_available)

lemma ok_step: "session_ok srv \<Longrightarrow> session_ok (server_step srv inp)"
proof (cases inp)
  case (Pair now i)
  assume "session_ok srv"
  then show ?thesis
    unfolding Pair
    by (cases i)
       (simp_all add: ok_voice ok_barcode_settled ok_resolution_settled ok_tool ok_s3)
qed

lemma ok_run: "session_ok srv \<Longrightarrow> session_ok (run srv inputs)"
  unfolding run_def by (induction inputs arbitrary: srv) (simp_all add: ok_step)

lemma ok_onSession: "session_ok (onSession now cb)"
  by (simp add: session_ok_def in_range_def onSession_def)


lemma says_nonempty:
  "says_next c \<Longrightarrow> c \<noteq> []" "says_back c \<Longrightarrow> c \<noteq> []"
  by (auto simp: says_next_def says_back_def)

lemma voice_building:
  assumes "state (sess srv) = Building" and "trim (toLowerCase t) \<noteq> []"
  shows "handleVoiceTranscription srv now True (Some t) =
           processVoiceCommand srv now (trim (toLowerCase t))"
  using assms by (simp add: handleVoiceTranscription_def Let_def)

text \<open>
  C5: in every state a session reaches from its creation, under any sequence of
  transcriptions, settled fetches and resolutions, tool calls and dataset loads, the
  step index of an active project with at least one step lies in [0, totalSteps), and so
  does every index that was rendered. In the building phase a command that says next at
  index totalSteps - 1 moves the session to completed and leaves the index; a command
  that says back or previous (and not next) at index 0 changes nothing.
\<close>

theorem C5_index_in_range:
  assumes reach: "srv = run (onSession now0 cb) inputs"
  shows "(\<forall>p. currentProject (sess srv) = Some p \<and> 1 \<le> totalSteps p \<longrightarrow>
            0 \<le> currentStep (sess srv) \<and> currentStep (sess srv) < totalSteps p)
    \<and> (\<forall>p i. (StepShown p i \<in> set (shown srv) \<or> StepMissing p i \<in> set (shown srv))
              \<and> 1 \<le> totalSteps p \<longrightarrow> 0 \<le> i \<and> i < totalSteps p)
    \<and> (state (sess srv) = Building \<and> currentProject (sess srv) = Some p
          \<and> currentStep (sess srv) = totalSteps p - 1 \<and> says_next (trim (toLowerCase t)) \<longrightarrow>
        state (sess (server_step srv (now, Transcription True (Some t)))) = Completed
        \<and> currentStep (sess (server_step srv (now, Transcription True (Some t))))
            = currentStep (sess srv))
    \<and> (state (sess srv) = Building \<and> currentProject (sess srv) = Some p
          \<and> currentStep (sess srv) = 0 \<and> \<not> says_next (trim (toLowerCase t))
          \<and> says_back (trim (toLowerCase t)) \<longrightarrow>
        server_step srv (now, Transcription True (Some t)) = srv)"
proof -
  have ok: "session_ok srv"
    unfolding reach by (rule ok_run) (rule ok_onSession)
  have a: "\<forall>p. currentProject (sess srv) = Some p \<and> 1 \<le> totalSteps p \<longrightarrow>
            0 \<le> currentStep (sess srv) \<and> currentStep (sess srv) < totalSteps p"
    using ok by (auto simp: session_ok_def in_range_def)
  have b: "\<forall>p i. (StepShown p i \<in> set (shown srv) \<or> StepMissing p i \<in> set (shown srv))
              \<and> 1 \<le> totalSteps p \<longrightarrow> 0 \<le> i \<and> i < totalSteps p"
  proof (intro allI impI)
    fix p i
    assume h: "(StepShown p i \<in> set (shown srv) \<or> StepMissing p i \<in> set (shown srv))
              \<and> 1 \<le> totalSteps p"
    have "\<forall>x \<in> set (shown srv). rendered_ok x"
      using ok by (simp add: session_ok_def list_all_iff)
    with h have "rendered_ok (StepShown p i) \<or> rendered_ok (StepMissing p i)"
      by blast
    with h show "0 \<le> i \<and> i < totalSteps p"
      by auto
  qed
  have c: "state (sess srv) = Building \<and> currentProject (sess srv) = Some p
          \<and> currentStep (sess srv) = totalSteps p - 1 \<and> says_next (trim (toLowerCase t)) \<longrightarrow>
        state (sess (server_step srv (now, Transcription True (Some t)))) = Completed
        \<and> currentStep (sess (server_step srv (now, Transcription True (Some t))))
            = currentStep (sess srv)"
    using says_nonempty(1) [of "trim (toLowerCase t)"]
    by (auto simp: voice_building processVoiceCommand_def navigate_def handleNextStep_def
        display_def)
  have d: "state (sess srv) = Building \<and> currentProject (sess srv) = Some p
          \<and> currentStep (sess srv) = 0 \<and> \<not> says_next (trim (toLowerCase t))
          \<and> says_back (trim (toLowerCase t)) \<longrightarrow>
        server_step srv (now, Transcription True (Some t)) = srv"
    using says_nonempty(2) [of "trim (toLowerCase t)"]
    by (auto simp: voice_building processVoiceCommand_def navigate_def handlePreviousStep_def)
  from a b c d show ?thesis
    by blast
qed

lemmas session_defs =
  run_def onSession_def handleVoiceTranscription_def barcode_settled_def
  resolution_settled_def updateCurrentBarcode_def remove_at_def processVoiceCommand_def
  navigate_def handleNextStep_def handlePreviousStep_def handleProjectSelection_def
  showInstructionStep_def display_def direct_navigation_def says_next_def says_back_def
  says_repeat_def says_restart_def says_new_def trim_def space1_def space2_def space3_def
  lower_char_def Let_def

lemma sample_session:
  "state (sess (run (onSession 0 None) (started @ two_nexts))) = Building"
  "currentProject (sess (run (onSession 0 None) (started @ two_nexts))) = Some acme_project"
  "currentStep (sess (run (onSession 0 None) (started @ two_nexts))) = 2"
  "state (sess (run (onSession 0 None) started)) = Building"
  "currentProject (sess (run (onSession 0 None) started)) = Some acme_project"
  "currentStep (sess (run (onSession 0 None) started)) = 0"
  by (simp_all add: session_defs started_def two_nexts_def B13_def acme_project_def
      exa_project_def)

lemma sample_words:
  "says_next (trim (toLowerCase ''NEXT''))"
  "\<not> says_next (trim (toLowerCase ''Go back''))"
  "says_back (trim (toLowerCase ''Go back''))"
  by (simp_all add: session_defs)

theorem C5_index_in_range_witness:
  "state (sess (run (onSession 0 None) (started @ two_nexts))) = Building
   \<and> currentProject (sess (run (onSession 0 None) (started @ two_nexts))) = Some acme_project
   \<and> totalSteps acme_project = 3
   \<and> currentStep (sess (run (onSession 0 None) (started @ two_nexts))) = 2
   \<and> says_next (trim (toLowerCase ''NEXT''))
   \<and> state (sess (server_step (run (onSession 0 None) (started @ two_nexts))
                     (6, Transcription True (Some ''NEXT'')))) = Completed
   \<and> currentStep (sess (server_step (run (onSession 0 None) (started @ two_nexts))
                     (6, Transcription True (Some ''NEXT'')))) = 2
   \<and> currentStep (sess (run (onSession 0 None) started)) = 0
   \<and> says_back (trim (toLowerCase ''Go back''))
   \<and> server_step (run (onSession 0 None) started) (4, Transcription True (Some ''Go back''))
       = run (onSession 0 None) started"
proof -
  have ts: "totalSteps acme_project = 3"
    by (simp add: acme_project_def exa_project_def)
  note a = C5_index_in_range [of "run (onSession 0 None) (started @ two_nexts)" 0 None
      "started @ two_nexts" acme_project "''NEXT''" 6, OF refl]
  note b = C5_index_in_range [of "run (onSession 0 None) started" 0 None started
      acme_project "''Go back''" 4, OF refl]
  have a': "state (sess (server_step (run (onSession 0 None) (started @ two_nexts))
                     (6, Transcription True (Some ''NEXT'')))) = Completed
     \<and> currentStep (sess (server_step (run (onSession 0 None) (started @ two_nexts))
                     (6, Transcription True (Some ''NEXT'')))) = 2"
    using a sample_session sample_words ts by simp
  have b': "server_step (run (onSession 0 None) started) (4, Transcription True (Some ''Go back''))
       = run (onSession 0 None) started"
    using b sample_session sample_words by simp
  show ?thesis
    using a' b' sample_session sample_words ts by simp
qed

section \<open>Session: when a command starts a resolution\<close>

text \<open>
  A session that is in the welcome phase has not had \<open>stepsGenerated\<close> set: the flag is
  set only when a resolution settles with a project, in the same turn that moves the
  session to the building phase, and no handler moves a session back to welcome.
\<close>

lemma sess_show [simp]: "sess (showInstructionStep srv p i) = sess srv"
  by (simp add: showInstructionStep_def display_def)

lemma state_select:
  "state (sess (handleProjectSelection srv now pid)) = state (sess srv)
   \<or> state (sess (handleProjectSelection srv now pid)) = Building"
  by (simp add: handleProjectSelection_def split: option.split)

lemma state_navigate:
  "state (sess (navigate srv p c)) = state (sess srv)
   \<or> state (sess (navigate srv p c)) = Completed"
  by (simp add: navigate_def handleNextStep_def handlePreviousStep_def display_def
      split: option.split)

lemma welcome_process:
  assumes "state (sess (processVoiceCommand srv now c)) = Welcome"
  shows "sess (processVoiceCommand srv now c) = sess srv"
proof (cases "state (sess srv)")
  case Welcome
  then show ?thesis
    by (simp add: processVoiceCommand_def display_def)
next
  case Selecting
  have "state (sess (processVoiceCommand srv now c)) = Selecting
      \<or> state (sess (processVoiceCommand srv now c)) = Building"
    using Selecting state_select [of srv now "''s3_product''"]
      state_select [of srv now "''barcode_'' @ the (CURRENT_BARCODE srv)"]
    by (auto simp: processVoiceCommand_def split: option.splits)
  with assms show ?thesis by auto
next
  case Building
  have "state (sess (processVoiceCommand srv now c)) = Building
      \<or> state (sess (processVoiceCommand srv now c)) = Completed"
  proof (cases "currentProject (sess srv)")
    case None
    with Building show ?thesis by (simp add: processVoiceCommand_def)
  next
    case (Some p)
    with Building state_navigate [of srv p c] show ?thesis
      by (simp add: processVoiceCommand_def)
  qed
  with assms show ?thesis by auto
next
  case Completed
  then have "state (sess (processVoiceCommand srv now c)) = Completed
      \<or> state (sess (processVoiceCommand srv now c)) = Selecting"
    by (simp add: processVoiceCommand_def handleNewProject_def display_def)
  with assms show ?thesis by auto
qed

lemma welcome_voice:
  assumes "state (sess (handleVoiceTranscription srv now f t)) = Welcome"
  shows "sess (handleVoiceTranscription srv now f t) = sess srv"
proof -
  have "handleVoiceTranscription srv now f t = srv
      \<or> (\<exists>c. handleVoiceTranscription srv now f t = processVoiceCommand srv now c)
      \<or> (\<exists>ps. handleVoiceTranscription srv now f t = srv\<lparr>pending := ps\<rparr>)"
    by (auto simp: handleVoiceTranscription_def Let_def split: option.split)
  with assms welcome_process [of srv now] show ?thesis
    by auto
qed

lemma sess_barcode_settled: "sess (barcode_settled srv k b) = sess srv"
  by (simp add: barcode_settled_def updateCurrentBarcode_def Let_def
      split: handler.split option.split)

lemma sess_tool: "state (sess (onToolCall srv toolId)) = state (sess srv)
    \<and> stepsGenerated (sess (onToolCall srv toolId)) = stepsGenerated (sess srv)"
  by (simp add: onToolCall_def display_def split: option.split)

lemma welcome_resolution_settled:
  assumes "state (sess (resolution_settled srv now k r)) = Welcome"
  shows "sess (resolution_settled srv now k r) = sess srv"
proof (cases "k < length (pending srv)")
  case False
  then show ?thesis by (simp add: resolution_settled_def)
next
  case True
  show ?thesis
  proof (cases "pending srv ! k")
    case (AwaitBarcode c)
    with True show ?thesis by (simp add: resolution_settled_def)
  next
    case (AwaitResolution c b)
    show ?thesis
    proof (cases r)
      case None
      with True AwaitResolution assms
      have "state (sess (processVoiceCommand (srv\<lparr>pending := remove_at k (pending srv)\<rparr>) now c))
          = Welcome"
        by (simp add: resolution_settled_def)
      from welcome_process [OF this] True AwaitResolution None show ?thesis
        by (simp add: resolution_settled_def)
    next
      case (Some p)
      define srv2 where "srv2 =
        handleProjectSelection
          (srv\<lparr>pending := remove_at k (pending srv),
               sess := (sess srv)\<lparr>availableProjects := (availableProjects (sess srv))(project_id p \<mapsto> p),
                                  stepsGenerated := True\<rparr>\<rparr>)
          now (project_id p)"
      have b: "state (sess srv2) = Building"
        by (simp add: srv2_def handleProjectSelection_def showInstructionStep_def display_def)
      have "resolution_settled srv now k r = processVoiceCommand srv2 now c"
        using True AwaitResolution Some by (simp add: resolution_settled_def srv2_def)
      with assms welcome_process [of srv2 now c] b show ?thesis
        by simp
    qed
  qed
qed

lemma welcome_step:
  "state (sess (server_step srv (now, inp))) = Welcome \<Longrightarrow>
     state (sess srv) = Welcome
     \<and> stepsGenerated (sess (server_step srv (now, inp))) = stepsGenerated (sess srv)"
proof (cases inp)
  case (Transcription f t)
  assume "state (sess (server_step srv (now, inp))) = Welcome"
  with Transcription welcome_voice [of srv now f t] show ?thesis by simp
next
  case (BarcodeSettled k b)
  assume "state (sess (server_step srv (now, inp))) = Welcome"
  with BarcodeSettled show ?thesis by (simp add: sess_barcode_settled)
next
  case (ResolutionSettled k r)
  assume "state (sess (server_step srv (now, inp))) = Welcome"
  with ResolutionSettled welcome_resolution_settled [of srv now k r] show ?thesis by simp
next
  case (ToolCall toolId)
  assume "state (sess (server_step srv (now, inp))) = Welcome"
  with ToolCall sess_tool [of srv toolId] show ?thesis by simp
next
  case (S3Loaded d)
  assume "state (sess (server_step srv (now, inp))) = Welcome"
  with S3Loaded show ?thesis by (simp add: loadS3Data_def)
qed

lemma welcome_flag_unreachable:
  "state (sess (run (onSession t0 cur) inputs)) = Welcome \<Longrightarrow>
     \<not> stepsGenerated (sess (run (onSession t0 cur) inputs))"
proof (induction inputs rule: rev_induct)
  case Nil
  then show ?case by (simp add: run_def onSession_def)
next
  case (snoc x xs)
  obtain now inp where x: "x = (now, inp)" by (cases x)
  have r: "run (onSession t0 cur) (xs @ [x]) = server_step (run (onSession t0 cur) xs) (now, inp)"
    by (simp add: run_def x)
  from snoc.prems r welcome_step [of "run (onSession t0 cur) xs" now inp]
  have "state (sess (run (onSession t0 cur) xs)) = Welcome"
    and "stepsGenerated (sess (run (onSession t0 cur) (xs @ [x])))
         = stepsGenerated (sess (run (onSession t0 cur) xs))"
    by simp_all
  with snoc.IH show ?case by simp
qed

lemma barcode_settled_starts:
  "k < length (pending srv) \<Longrightarrow> pending srv ! k = AwaitBarcode c \<Longrightarrow> b \<noteq> [] \<Longrightarrow>
     pending (barcode_settled srv k (Some b)) = (pending srv)[k := AwaitResolution c b]
     \<and> sess (barcode_settled srv k (Some b)) = sess srv"
  by (auto simp: barcode_settled_def updateCurrentBarcode_def Let_def split: option.splits)

text \<open>
  C10: the code does not keep a second command from starting a second resolution, and the
  code is at fault. The handler tests \<open>stepsGenerated\<close> before it awaits the barcode
  and the resolution, and sets the flag only after the resolution has returned a project,
  in the turn that leaves the welcome phase. So in every session that is in the welcome
  phase the flag is false, the branch that would ignore the command is never taken, and
  every final, non-empty command suspends one more handler: after two commands and their
  barcode fetches, two resolutions are in flight for the same session.
\<close>

theorem C10_two_resolutions:
  assumes "srv = run (onSession t0 cur) inputs"
    and "state (sess srv) = Welcome"
    and "trim (toLowerCase x1) \<noteq> []" and "trim (toLowerCase x2) \<noteq> []" and "b \<noteq> []"
  shows "\<not> stepsGenerated (sess srv)
    \<and> pending (run srv [(t1, Transcription True (Some x1)),
                         (t2, Transcription True (Some x2)),
                         (t3, BarcodeSettled (length (pending srv)) (Some b)),
                         (t4, BarcodeSettled (Suc (length (pending srv))) (Some b))])
        = pending srv @ [AwaitResolution (trim (toLowerCase x1)) b,
                         AwaitResolution (trim (toLowerCase x2)) b]
    \<and> in_flight (run srv [(t1, Transcription True (Some x1)),
                           (t2, Transcription True (Some x2)),
                           (t3, BarcodeSettled (length (pending srv)) (Some b)),
                           (t4, BarcodeSettled (Suc (length (pending srv))) (Some b))])
        = in_flight srv + 2
    \<and> sess (run srv [(t1, Transcription True (Some x1)),
                      (t2, Transcription True (Some x2)),
                      (t3, BarcodeSettled (length (pending srv)) (Some b)),
                      (t4, BarcodeSettled (Suc (length (pending srv))) (Some b))])
        = sess srv"
proof -
  have flag: "\<not> stepsGenerated (sess srv)"
    using welcome_flag_unreachable [of t0 cur inputs] assms(1,2) by simp
  define c1 where "c1 = trim (toLowerCase x1)"
  define c2 where "c2 = trim (toLowerCase x2)"
  define n where "n = length (pending srv)"
  define s1 where "s1 = handleVoiceTranscription srv t1 True (Some x1)"
  define s2 where "s2 = handleVoiceTranscription s1 t2 True (Some x2)"
  define s3 where "s3 = barcode_settled s2 n (Some b)"
  define s4 where "s4 = barcode_settled s3 (Suc n) (Some b)"
  have a1: "pending s1 = pending srv @ [AwaitBarcode c1]" "sess s1 = sess srv"
    using assms(2,3) flag by (simp_all add: handleVoiceTranscription_def Let_def s1_def c1_def)
  have a2: "pending s2 = pending srv @ [AwaitBarcode c1, AwaitBarcode c2]" "sess s2 = sess srv"
    using assms(2,4) flag a1
    by (simp_all add: handleVoiceTranscription_def Let_def s2_def c2_def)
  have a3: "pending s3 = pending srv @ [AwaitResolution c1 b, AwaitBarcode c2]"
    "sess s3 = sess srv"
    using barcode_settled_starts [of n s2 c1 b] assms(5) a2
    by (simp_all add: s3_def n_def nth_append list_update_append)
  have a4: "pending s4 = pending srv @ [AwaitResolution c1 b, AwaitResolution c2 b]"
    "sess s4 = sess srv"
    using barcode_settled_starts [of "Suc n" s3 c2 b] assms(5) a3
    by (simp_all add: s4_def n_def nth_append list_update_append)
  have r: "run srv [(t1, Transcription True (Some x1)),
                    (t2, Transcription True (Some x2)),
                    (t3, BarcodeSettled (length (pending srv)) (Some b)),
                    (t4, BarcodeSettled (Suc (length (pending srv))) (Some b))] = s4"
    by (simp add: run_def n_def s1_def s2_def s3_def s4_def)
  show ?thesis
    unfolding r using flag a4 by (simp add: in_flight_def c1_def c2_def)
qed

theorem C10_two_resolutions_witness:
  "state (sess (run (onSession 0 None) [])) = Welcome
   \<and> trim (toLowerCase ''start'') = ''start'' \<and> trim (toLowerCase ''go'') = ''go''
   \<and> pending (run (onSession 0 None) two_commands) =
       [AwaitResolution ''start'' B13, AwaitResolution ''go'' B13]
   \<and> in_flight (run (onSession 0 None) two_commands) = 2
   \<and> state (sess (run (onSession 0 None) two_commands)) = Welcome
   \<and> stepsGenerated (sess (run (onSession 0 None) two_commands)) = False"
proof -
  have w: "state (sess (run (onSession 0 None) [])) = Welcome"
    by (simp add: run_def onSession_def)
  have c: "trim (toLowerCase ''start'') = ''start''" "trim (toLowerCase ''go'') = ''go''"
    by (simp_all add: session_defs)
  have b: "B13 \<noteq> []"
    by (simp add: B13_def)
  have p: "pending (run (onSession 0 None) []) = []" "in_flight (run (onSession 0 None) []) = 0"
    "sess (run (onSession 0 None) []) = sess (onSession 0 None)"
    by (simp_all add: run_def onSession_def in_flight_def)
  have two: "run (run (onSession 0 None) [])
      [(1, Transcription True (Some ''start'')), (2, Transcription True (Some ''go'')),
       (3, BarcodeSettled 0 (Some B13)), (4, BarcodeSettled (Suc 0) (Some B13))]
      = run (onSession 0 None) two_commands"
    by (simp add: run_def two_commands_def)
  note t = C10_two_resolutions [OF refl w, of "''start''" "''go''" B13 1 2 3 4]
  have "pending (run (onSession 0 None) two_commands) =
         [AwaitResolution ''start'' B13, AwaitResolution ''go'' B13]
     \<and> in_flight (run (onSession 0 None) two_commands) = 2
     \<and> sess (run (onSession 0 None) two_commands) = sess (onSession 0 None)"
    using t c b p two by simp
  then show ?thesis
    using w c by (simp add: onSession_def)
qed
section \<open>Step synthesis: an answer with no steps\<close>

text \<open>
  C6: the templates are as specified, five steps chosen by the keywords of the
  lower-cased title (\<open>fallback_templates\<close>), and the synthesizer falls back on them
  when the provider is not configured, the request fails, the answer holds no bracketed
  array or the array does not parse. But the synthesizer can return zero steps, and the
  code is at fault: an answer that holds the empty array is returned as it is, without
  the check that every other unusable answer gets. The callers rely on at least one
  step: the project is stored with \<open>totalSteps\<close> 0, and \<open>showInstructionStep\<close> reads the
  title of \<open>steps[0]\<close>, which is undefined, and throws.
\<close>

theorem C6_zero_steps:
  assumes "ANTHROPIC_API_KEY e"
    and "anthropic e (tick st) t u = AnthropicText c"
    and "match_array c = Some j"
    and "JSON_parse e j = Some []"
  shows "generateInstructionsFromPDF e st t u = ([], emit (AnthropicRequest t u) st)
    \<and> totalSteps (barcode_project b t (fst (generateInstructionsFromPDF e st t u))) = 0
    \<and> showInstructionStep srv (barcode_project b t (fst (generateInstructionsFromPDF e st t u))) 0
        = display (StepMissing (barcode_project b t []) 0) srv"
  using assms
  by (simp add: generateInstructionsFromPDF_def Let_def barcode_project_def
      showInstructionStep_def)

lemma run_no_steps:
  "fst (processVoiceCommandWithAI env_no_steps fresh ''start'' B13 False) = Some no_steps_project"
  by (simp add: pipeline_defs sample_defs env_no_steps_def no_steps_project_def)

lemma session_no_steps:
  "shown (run (onSession 0 None) started_no_steps) = [StepMissing no_steps_project 0]"
  "state (sess (run (onSession 0 None) started_no_steps)) = Building"
  "currentProject (sess (run (onSession 0 None) started_no_steps)) = Some no_steps_project"
  by (simp_all add: session_defs started_no_steps_def no_steps_project_def barcode_project_def
      B13_def)

theorem C6_zero_steps_witness:
  "ANTHROPIC_API_KEY env_no_steps
   \<and> anthropic env_no_steps (tick fresh) ''Acme Widget'' ''https://acme.example/widget.pdf''
       = AnthropicText ''[]''
   \<and> match_array ''[]'' = Some ''[]''
   \<and> JSON_parse env_no_steps ''[]'' = Some []
   \<and> fst (generateInstructionsFromPDF env_no_steps fresh ''Acme Widget''
             ''https://acme.example/widget.pdf'') = []
   \<and> ANTHROPIC_API_KEY env_empty_array
   \<and> fst (generateInstructionsFromPDF env_empty_array fresh ''LEGO Classic 11001'' []) = []
   \<and> fst (processVoiceCommandWithAI env_no_steps fresh ''start'' B13 False) = Some no_steps_project
   \<and> totalSteps no_steps_project = 0
   \<and> shown (run (onSession 0 None) started_no_steps) = [StepMissing no_steps_project 0]"
proof -
  have h: "ANTHROPIC_API_KEY env_no_steps"
    "anthropic env_no_steps (tick fresh) ''Acme Widget'' ''https://acme.example/widget.pdf''
       = AnthropicText ''[]''"
    "match_array ''[]'' = Some ''[]''"
    "JSON_parse env_no_steps ''[]'' = Some []"
    by (simp_all add: env_no_steps_def env_online_def match_array_def)
  have h': "ANTHROPIC_API_KEY env_empty_array"
    "anthropic env_empty_array (tick fresh) ''LEGO Classic 11001'' []
       = AnthropicText ''Here you go: [] (no steps found)''"
    "match_array ''Here you go: [] (no steps found)'' = Some ''[]''"
    "JSON_parse env_empty_array ''[]'' = Some []"
    by (simp_all add: env_empty_array_def env_offline_def match_array_def)
  note a = C6_zero_steps [OF h, of B13 "onSession 0 None"]
  note b = C6_zero_steps [OF h', of B13 "onSession 0 None"]
  have "totalSteps no_steps_project = 0"
    by (simp add: no_steps_project_def barcode_project_def)
  with a b h h'(1) run_no_steps session_no_steps(1) show ?thesis
    by simp
qed

end
